theory Spec2Isabelle
  imports Complex_Main "HOL-Library.Sublist"
begin

section \<open>Python values and the operations the loader uses\<close>

text \<open>
  The loader \<^verbatim>\<open>newsqa.py\<close> works on what \<^verbatim>\<open>csv.reader\<close> and \<^verbatim>\<open>json.load\<close>
  hand to it: rows that are lists of strings, and a tree of Python values. A Python
  string is modelled as a \<^typ>\<open>string\<close>, one \<^typ>\<open>char\<close> per code point, which
  covers the code points below 256. A dictionary is an association list in insertion
  order, as Python keeps it; its keys are values, compared as Python compares keys.
\<close>

datatype pyfloat = Finite rat | PosInf | NegInf | NaN

datatype pyval =
    PNone
  | PBool bool
  | PInt int
  | PFloat pyfloat
  | PStr string
  | PList "pyval list"
  | PDict "(pyval \<times> pyval) list"

type_synonym pydict = "(pyval \<times> pyval) list"

datatype error =
    KeyError pyval
  | IndexError
  | TypeError
  | AttributeError
  | RuntimeError
  | JSONDecodeError
  | FileNotFoundError string

text \<open>An exception ends the evaluation of whatever follows it: the next step runs only
  on a value.\<close>

definition bind_result :: "error + 'a \<Rightarrow> ('a \<Rightarrow> error + 'b) \<Rightarrow> error + 'b" where
  "bind_result r f = (case r of Inl e \<Rightarrow> Inl e | Inr v \<Rightarrow> f v)"

text \<open>\<^verbatim>\<open>xs[i]\<close> on a list: a negative index counts from the end, an index out of
  range raises \<^verbatim>\<open>IndexError\<close>.\<close>

definition py_index :: "'a list \<Rightarrow> int \<Rightarrow> error + 'a" where
  "py_index xs i =
     (let n = int (length xs); j = (if i < 0 then i + n else i)
      in if 0 \<le> j \<and> j < n then Inr (xs ! nat j) else Inl IndexError)"

text \<open>\<^verbatim>\<open>xs[lo:hi]\<close>: both bounds are clamped to the list, a slice never raises.\<close>

definition slice_bound :: "nat \<Rightarrow> int \<Rightarrow> nat" where
  "slice_bound n i = (if i < 0 then nat (max 0 (i + int n)) else min (nat i) n)"

definition py_slice :: "'a list \<Rightarrow> int \<Rightarrow> int \<Rightarrow> 'a list" where
  "py_slice xs lo hi =
     (let a = slice_bound (length xs) lo; b = slice_bound (length xs) hi
      in take (b - a) (drop a xs))"

subsection \<open>\<^verbatim>\<open>repr\<close> of a string and \<^verbatim>\<open>str\<close> of a list of strings\<close>

definition hex_digit :: "nat \<Rightarrow> char" where
  "hex_digit d = ''0123456789abcdef'' ! (d mod 16)"

definition hex_escape :: "char \<Rightarrow> string" where
  "hex_escape c =
     (let n = (of_char c :: nat) in [CHR 0x5C, CHR ''x'', hex_digit (n div 16), hex_digit n])"

text \<open>Among the code points below 256 the printable ones are the ASCII range from the
  space to the tilde and the Latin-1 range from 161 on, the soft hyphen (173) apart.\<close>

definition is_printable :: "char \<Rightarrow> bool" where
  "is_printable c =
     (let n = (of_char c :: nat) in (32 \<le> n \<and> n < 127) \<or> (161 \<le> n \<and> n \<noteq> 173))"

definition repr_quote :: "string \<Rightarrow> char" where
  "repr_quote s =
     (if CHR 0x27 \<in> set s \<and> CHR 0x22 \<notin> set s then CHR 0x22 else CHR 0x27)"

definition repr_char :: "char \<Rightarrow> char \<Rightarrow> string" where
  "repr_char quote c =
     (if c = quote \<or> c = CHR 0x5C then [CHR 0x5C, c]
      else if c = CHR 0x09 then [CHR 0x5C, CHR ''t'']
      else if c = CHR 0x0A then [CHR 0x5C, CHR ''n'']
      else if c = CHR 0x0D then [CHR 0x5C, CHR ''r'']
      else if is_printable c then [c]
      else hex_escape c)"

definition py_repr_str :: "string \<Rightarrow> string" where
  "py_repr_str s =
     (let quote = repr_quote s in [quote] @ concat (map (repr_char quote) s) @ [quote])"

fun join_str :: "string \<Rightarrow> string list \<Rightarrow> string" where
  "join_str sep [] = []"
| "join_str sep [x] = x"
| "join_str sep (x # y # ys) = x @ sep @ join_str sep (y # ys)"

definition py_str_list :: "string list \<Rightarrow> string" where
  "py_str_list xs = ''['' @ join_str '', '' (map py_repr_str xs) @ '']''"

section \<open>The delimited variants of \<^verbatim>\<open>_generate_examples\<close>\<close>

text \<open>
  The three shapes of example the generator yields, one per configuration. The nested
  parts of the structured shape are kept as the dictionaries and lists the code builds.
\<close>

datatype answer_record = AnswerRecord (sourcerAnswers: "pydict list")

datatype question_record = QuestionRecord
  (q: pyval) (isAnswerAbsent: pyval) (isQuestionBad: pyval)
  (consensus: pydict) (answers: "answer_record list") (validated_answers: "pydict list")

datatype example =
    CombinedCsvExample
      (story_id: string) (story_text: string) (question: string) (answer_char_ranges: string)
  | SplitExample
      (story_id: string) (story_text: string) (question: string) (answer_token_ranges: string)
  | CombinedJsonExample
      (storyId: pyval) (text_field: pyval) (type_field: pyval) (questions: "question_record list")

text \<open>
  A run of the generator: the pairs it yields, in order, and the exception that ended
  it, if one did.
\<close>

type_synonym generated = "(nat \<times> example) list \<times> error option"

text \<open>Lines 224 to 229: the dictionary built from one row of the combined file. Its
  values are evaluated in the order written, so the first failing index decides.\<close>

definition combined_csv_row :: "string list \<Rightarrow> error + example" where
  "combined_csv_row row =
     bind_result (py_index row 0) (\<lambda>sid.
     bind_result (py_index row (-1)) (\<lambda>txt.
     bind_result (py_index row 1) (\<lambda>qu.
       Inr (CombinedCsvExample sid txt qu (py_str_list (py_slice row 2 (-2)))))))"

text \<open>Lines 292 to 297: the dictionary built from one row of a split file.\<close>

definition split_row :: "string list \<Rightarrow> error + example" where
  "split_row row =
     bind_result (py_index row 0) (\<lambda>sid.
     bind_result (py_index row 1) (\<lambda>txt.
     bind_result (py_index row 2) (\<lambda>qu.
     bind_result (py_index row 3) (\<lambda>rng.
       Inr (SplitExample sid txt qu rng)))))"

text \<open>
  \<^verbatim>\<open>for id_, row in enumerate(csv_reader): if row: yield id_, {...}\<close>. The counter
  \<open>i\<close> is the one \<^verbatim>\<open>enumerate\<close> keeps: it advances with every row the reader
  produces. An empty list is falsy, so an empty row yields nothing. An exception in
  the body ends the run.
\<close>

fun enumerate_rows ::
  "(string list \<Rightarrow> error + example) \<Rightarrow> nat \<Rightarrow> string list list \<Rightarrow> generated" where
  "enumerate_rows build i [] = ([], None)"
| "enumerate_rows build i (row # rows) =
     (if row \<noteq> [] then
        (case build row of
           Inl e \<Rightarrow> ([], Some e)
         | Inr ex \<Rightarrow>
             (case enumerate_rows build (Suc i) rows of (ys, r) \<Rightarrow> ((i, ex) # ys, r)))
      else enumerate_rows build (Suc i) rows)"

text \<open>
  \<^verbatim>\<open>_ = next(csv_reader)\<close> drops the header. On a file with no row at all
  \<^verbatim>\<open>next\<close> raises \<^verbatim>\<open>StopIteration\<close>, which a generator turns into
  \<^verbatim>\<open>RuntimeError\<close>. The argument is the list of rows the reader produces.
\<close>

definition generate_delimited ::
  "(string list \<Rightarrow> error + example) \<Rightarrow> string list list \<Rightarrow> generated" where
  "generate_delimited build all_rows =
     (case all_rows of
        [] \<Rightarrow> ([], Some RuntimeError)
      | header # rows \<Rightarrow> enumerate_rows build 0 rows)"

definition generate_combined_csv :: "string list list \<Rightarrow> generated" where
  "generate_combined_csv = generate_delimited combined_csv_row"

definition generate_split :: "string list list \<Rightarrow> generated" where
  "generate_split = generate_delimited split_row"

section \<open>Dictionaries, subscripts and iteration\<close>

text \<open>
  Python finds a key by hash and \<^verbatim>\<open>==\<close>, under which \<^verbatim>\<open>True\<close>, \<^verbatim>\<open>1\<close> and
  \<^verbatim>\<open>1.0\<close> are one key. \<open>key_norm\<close> maps the numbers that compare equal to one
  representative; two keys are the same key when their representatives agree. Lists
  and dictionaries are not hashable and cannot be keys.
\<close>

fun key_norm :: "pyval \<Rightarrow> pyval" where
  "key_norm (PBool b) = PFloat (Finite (if b then 1 else 0))"
| "key_norm (PInt i) = PFloat (Finite (of_int i))"
| "key_norm v = v"

definition key_eq :: "pyval \<Rightarrow> pyval \<Rightarrow> bool" where
  "key_eq a b \<longleftrightarrow> key_norm a = key_norm b"

fun hashable :: "pyval \<Rightarrow> bool" where
  "hashable (PList xs) = False"
| "hashable (PDict kvs) = False"
| "hashable v = True"

fun dict_lookup :: "pydict \<Rightarrow> pyval \<Rightarrow> pyval option" where
  "dict_lookup [] k = None"
| "dict_lookup ((k', v) # kvs) k = (if key_eq k' k then Some v else dict_lookup kvs k)"

text \<open>\<^verbatim>\<open>d[k] = v\<close>: a key already there keeps its place and takes the new value, a
  new key goes to the end.\<close>

fun dict_set :: "pydict \<Rightarrow> pyval \<Rightarrow> pyval \<Rightarrow> pydict" where
  "dict_set [] k v = [(k, v)]"
| "dict_set ((k', v') # kvs) k v =
     (if key_eq k' k then (k', v) # kvs else (k', v') # dict_set kvs k v)"

definition py_setitem :: "pydict \<Rightarrow> pyval \<Rightarrow> pyval \<Rightarrow> error + pydict" where
  "py_setitem d k v = (if hashable k then Inr (dict_set d k v) else Inl TypeError)"

text \<open>A list or string subscript has to be an integer; \<^verbatim>\<open>bool\<close> is one.\<close>

fun index_of :: "pyval \<Rightarrow> int option" where
  "index_of (PInt i) = Some i"
| "index_of (PBool b) = Some (if b then 1 else 0)"
| "index_of v = None"

text \<open>\<^verbatim>\<open>obj[key]\<close> on a value: \<^verbatim>\<open>KeyError\<close> for a key a dictionary lacks,
  \<^verbatim>\<open>IndexError\<close> out of the range of a list or string, \<^verbatim>\<open>TypeError\<close> for a
  subscript of the wrong type or a value that has no subscripts.\<close>

fun py_getitem :: "pyval \<Rightarrow> pyval \<Rightarrow> error + pyval" where
  "py_getitem (PDict kvs) k =
     (if hashable k
      then (case dict_lookup kvs k of None \<Rightarrow> Inl (KeyError k) | Some v \<Rightarrow> Inr v)
      else Inl TypeError)"
| "py_getitem (PList xs) k =
     (case index_of k of None \<Rightarrow> Inl TypeError | Some i \<Rightarrow> py_index xs i)"
| "py_getitem (PStr s) k =
     (case index_of k of
        None \<Rightarrow> Inl TypeError
      | Some i \<Rightarrow> bind_result (py_index s i) (\<lambda>c. Inr (PStr [c])))"
| "py_getitem v k = Inl TypeError"

text \<open>What a \<^verbatim>\<open>for\<close> loop runs over: the elements of a list, the keys of a
  dictionary, the characters of a string; anything else is not iterable.\<close>

fun py_iter :: "pyval \<Rightarrow> error + pyval list" where
  "py_iter (PList xs) = Inr xs"
| "py_iter (PDict kvs) = Inr (map fst kvs)"
| "py_iter (PStr s) = Inr (map (\<lambda>c. PStr [c]) s)"
| "py_iter v = Inl TypeError"

text \<open>\<^verbatim>\<open>obj.keys()\<close>: only a dictionary has the method.\<close>

fun py_keys :: "pyval \<Rightarrow> error + pyval list" where
  "py_keys (PDict kvs) = Inr (map fst kvs)"
| "py_keys v = Inl AttributeError"

text \<open>A loop that appends one result per element: the first exception ends it.\<close>

fun map_result :: "('a \<Rightarrow> error + 'b) \<Rightarrow> 'a list \<Rightarrow> error + 'b list" where
  "map_result f [] = Inr []"
| "map_result f (x # xs) =
     (case f x of
        Inl e \<Rightarrow> Inl e
      | Inr y \<Rightarrow> (case map_result f xs of Inl e \<Rightarrow> Inl e | Inr ys \<Rightarrow> Inr (y # ys)))"

section \<open>The structured variant of \<^verbatim>\<open>_generate_examples\<close>\<close>

definition default_span :: pydict where
  "default_span =
     [(PStr ''s'', PInt 0), (PStr ''e'', PInt 0),
      (PStr ''badQuestion'', PBool False), (PStr ''noAnswer'', PBool False)]"

definition default_validated_answer :: pydict where
  "default_validated_answer =
     [(PStr ''s'', PInt 0), (PStr ''e'', PInt 0),
      (PStr ''badQuestion'', PBool False), (PStr ''noAnswer'', PBool False),
      (PStr ''count'', PInt 0)]"

text \<open>
  \<^verbatim>\<open>for key in keys: d[key] = raw[key]\<close>, the body of the loops at lines 250 and 258,
  started from the dictionary \<open>d\<close>.
\<close>

fun override_keys :: "pyval \<Rightarrow> pydict \<Rightarrow> pyval list \<Rightarrow> error + pydict" where
  "override_keys raw d [] = Inr d"
| "override_keys raw d (key # keys) =
     (case py_getitem raw key of
        Inl e \<Rightarrow> Inl e
      | Inr v \<Rightarrow>
          (case py_setitem d key v of
             Inl e \<Rightarrow> Inl e
           | Inr d' \<Rightarrow> override_keys raw d' keys))"

text \<open>Lines 248 to 251. The loop runs over \<^verbatim>\<open>ques["consensus"]\<close> itself, whatever
  kind of value that is.\<close>

definition build_consensus :: "pyval \<Rightarrow> error + pydict" where
  "build_consensus raw = bind_result (py_iter raw) (override_keys raw default_span)"

text \<open>Lines 257 to 259. The loop runs over \<^verbatim>\<open>sourcer_answer.keys()\<close>.\<close>

definition build_sourcer_answer :: "pyval \<Rightarrow> error + pydict" where
  "build_sourcer_answer sourcer_answer =
     bind_result (py_keys sourcer_answer) (override_keys sourcer_answer default_span)"

text \<open>Lines 255 to 261: one answer, the dictionary with the single key
  \<^verbatim>\<open>sourcerAnswers\<close>.\<close>

definition build_answer :: "pyval \<Rightarrow> error + answer_record" where
  "build_answer ans =
     bind_result (py_getitem ans (PStr ''sourcerAnswers'')) (\<lambda>raw.
     bind_result (py_iter raw) (\<lambda>sourcer_answers.
     bind_result (map_result build_sourcer_answer sourcer_answers) (\<lambda>built.
       Inr (AnswerRecord built))))"

text \<open>\<^verbatim>\<open>{**d, **kvs}\<close>: the items of \<open>kvs\<close> are stored into a copy of \<open>d\<close> in
  order. Unpacking with \<^verbatim>\<open>**\<close> takes a mapping only.\<close>

definition dict_merge :: "pydict \<Rightarrow> pydict \<Rightarrow> pydict" where
  "dict_merge d kvs = fold (\<lambda>(k, v) acc. dict_set acc k v) kvs d"

fun build_validated_answer :: "pyval \<Rightarrow> error + pydict" where
  "build_validated_answer (PDict kvs) = Inr (dict_merge default_validated_answer kvs)"
| "build_validated_answer v = Inl TypeError"

text \<open>Lines 271 and 272, on the dictionary \<open>ques\<close>:
  \<^verbatim>\<open>ques.get("validatedAnswers", [])\<close> and the comprehension over it.\<close>

definition build_validated_answers :: "pydict \<Rightarrow> error + pydict list" where
  "build_validated_answers ques =
     (let validated =
        (case dict_lookup ques (PStr ''validatedAnswers'') of
           None \<Rightarrow> PList [] | Some v \<Rightarrow> v)
      in bind_result (py_iter validated) (map_result build_validated_answer))"

text \<open>\<^verbatim>\<open>ques[key] if key in ques.keys() else 0.0\<close>, lines 240 to 247. The default is
  the float zero.\<close>

definition get_or_zero :: "pydict \<Rightarrow> string \<Rightarrow> pyval" where
  "get_or_zero ques key =
     (case dict_lookup ques (PStr key) of None \<Rightarrow> PFloat (Finite 0) | Some v \<Rightarrow> v)"

text \<open>
  Lines 239 to 275: one question. \<^verbatim>\<open>ques["q"]\<close> comes first and succeeds on a
  dictionary only; \<^verbatim>\<open>ques.keys()\<close> on anything else would raise.
\<close>

definition build_question :: "pyval \<Rightarrow> error + question_record" where
  "build_question ques =
     bind_result (py_getitem ques (PStr ''q'')) (\<lambda>qv.
       (case ques of
          PDict kvs \<Rightarrow>
            bind_result (py_getitem ques (PStr ''consensus'')) (\<lambda>raw_consensus.
            bind_result (build_consensus raw_consensus) (\<lambda>cons.
            bind_result (py_getitem ques (PStr ''answers'')) (\<lambda>raw_answers.
            bind_result (py_iter raw_answers) (\<lambda>anss.
            bind_result (map_result build_answer anss) (\<lambda>built_answers.
            bind_result (build_validated_answers kvs) (\<lambda>validated.
              Inr (QuestionRecord qv (get_or_zero kvs ''isAnswerAbsent'')
                     (get_or_zero kvs ''isQuestionBad'') cons built_answers validated)))))))
        | _ \<Rightarrow> Inl AttributeError))"

text \<open>Lines 237 to 282: one item of \<^verbatim>\<open>data\<close>. The questions are built before the
  dictionary that is yielded reads \<^verbatim>\<open>storyId\<close>, \<^verbatim>\<open>text\<close> and \<^verbatim>\<open>type\<close>.\<close>

definition build_item :: "pyval \<Rightarrow> error + example" where
  "build_item item =
     bind_result (py_getitem item (PStr ''questions'')) (\<lambda>raw_questions.
     bind_result (py_iter raw_questions) (\<lambda>quess.
     bind_result (map_result build_question quess) (\<lambda>built.
     bind_result (py_getitem item (PStr ''storyId'')) (\<lambda>sid.
     bind_result (py_getitem item (PStr ''text'')) (\<lambda>txt.
     bind_result (py_getitem item (PStr ''type'')) (\<lambda>ty.
       Inr (CombinedJsonExample sid txt ty built)))))))"

text \<open>\<^verbatim>\<open>for id_, item in enumerate(data): ... yield id_, {...}\<close>.\<close>

fun enumerate_items :: "nat \<Rightarrow> pyval list \<Rightarrow> generated" where
  "enumerate_items i [] = ([], None)"
| "enumerate_items i (item # items) =
     (case build_item item of
        Inl e \<Rightarrow> ([], Some e)
      | Inr ex \<Rightarrow>
          (case enumerate_items (Suc i) items of (ys, r) \<Rightarrow> ((i, ex) # ys, r)))"

text \<open>Lines 233 to 235, on the value \<open>d\<close> that \<^verbatim>\<open>json.load\<close> returned.\<close>

definition generate_combined_json :: "pyval \<Rightarrow> generated" where
  "generate_combined_json d =
     (case py_getitem d (PStr ''data'') of
        Inl e \<Rightarrow> ([], Some e)
      | Inr data \<Rightarrow>
          (case py_iter data of
             Inl e \<Rightarrow> ([], Some e)
           | Inr items \<Rightarrow> enumerate_items 0 items))"

text \<open>
  The three-way branch of \<^verbatim>\<open>_generate_examples\<close> on the name of the configuration.
  The file behind \<^verbatim>\<open>filepath\<close> is given by what the two library readers make of
  it: the rows \<^verbatim>\<open>csv.reader\<close> produces, and the value \<^verbatim>\<open>json.load\<close> returns or
  the exception it raises. The argument \<^verbatim>\<open>split\<close> is not used by the code.
\<close>

record opened_file =
  csv_reader :: "string list list"
  json_load :: "error + pyval"

definition generate_examples :: "string \<Rightarrow> opened_file \<Rightarrow> generated" where
  "generate_examples config_name f =
     (if config_name = ''combined-csv'' then generate_combined_csv (csv_reader f)
      else if config_name = ''combined-json'' then
        (case json_load f of
           Inl e \<Rightarrow> ([], Some e)
         | Inr d \<Rightarrow> generate_combined_json d)
      else generate_split (csv_reader f))"

text \<open>
  What \<^verbatim>\<open>json.load\<close> can return for a JSON object: string keys, each once.
\<close>

fun is_str :: "pyval \<Rightarrow> bool" where
  "is_str (PStr s) = True"
| "is_str v = False"

definition json_object :: "pydict \<Rightarrow> bool" where
  "json_object kvs \<longleftrightarrow> list_all is_str (map fst kvs) \<and> distinct (map fst kvs)"

section \<open>The format selector \<^verbatim>\<open>_split_generators\<close>\<close>

definition manual_download_instructions :: string where
  "manual_download_instructions =
     ''Due to legal restrictions with the CNN data and data extraction. The data has to be downloaded from several sources and compiled as per the instructions by Authors.'' @ [CHR 0x0A] @
     ''Upon obtaining the resulting data folders, it can be loaded easily using the datasets API.'' @ [CHR 0x0A] @
     ''Please refer to (https://github.com/Maluuba/newsqa) to download data from Microsoft Reseach site (https://msropendata.com/datasets/939b1042-6402-4697-9c15-7a28de7e1321) and a CNN datasource (https://cs.nyu.edu/~kcho/DMQA/) and run the scripts present here (https://github.com/Maluuba/newsqa).'' @ [CHR 0x0A] @
     ''This will generate a folder named '' @ [CHR 0x22] @ ''split-data'' @ [CHR 0x22] @
     '' and a file named '' @ [CHR 0x22] @ ''combined-newsqa-data-v1.csv'' @ [CHR 0x22] @ ''.'' @ [CHR 0x0A] @
     ''Copy the above folder and the file to a directory where you want to store them locally.''"

text \<open>\<^verbatim>\<open>os.path.join\<close> of two components, on a POSIX system.\<close>

definition os_path_join :: "string \<Rightarrow> string \<Rightarrow> string" where
  "os_path_join a b =
     (if b \<noteq> [] \<and> hd b = CHR ''/'' then b
      else if a = [] \<or> last a = CHR ''/'' then a @ b
      else a @ ''/'' @ b)"

text \<open>
  The operating system as the function sees it: which paths exist, and the two pure
  path functions applied to \<^verbatim>\<open>dl_manager.manual_dir\<close>.
\<close>

record os_env =
  path_exists :: "string \<Rightarrow> bool"
  expanduser :: "string \<Rightarrow> string"
  abspath :: "string \<Rightarrow> string"

datatype split_name = TRAIN | TEST | VALIDATION

datatype split_generator = SplitGenerator
  (name: split_name) (filepath: string) (split: string)

definition missing_dir_message :: "string \<Rightarrow> string" where
  "missing_dir_message path =
     path @ '' does not exist. Make sure you insert a manual dir via `datasets.load_dataset(''
       @ [CHR 0x27] @ ''newsqa'' @ [CHR 0x27]
       @ '', data_dir=...)` that includes files from the Manual download instructions: ''
       @ manual_download_instructions"

text \<open>
  Lines 164 to 211. Next to its result the function returns the paths it asked the file
  system about, in order: the existence check on the manual folder is its only access.
\<close>

definition split_generators ::
  "os_env \<Rightarrow> string \<Rightarrow> string \<Rightarrow> string list \<times> (error + split_generator list)" where
  "split_generators env config_name manual_dir =
     (let path_to_manual_folder = abspath env (expanduser env manual_dir) in
      ([path_to_manual_folder],
       if \<not> path_exists env path_to_manual_folder then
         Inl (FileNotFoundError (missing_dir_message path_to_manual_folder))
       else if config_name = ''combined-csv'' then
         Inr [SplitGenerator TRAIN
                (os_path_join path_to_manual_folder ''combined-newsqa-data-v1.csv'') ''combined'']
       else if config_name = ''combined-json'' then
         Inr [SplitGenerator TRAIN
                (os_path_join path_to_manual_folder ''combined-newsqa-data-v1.json'') ''combined'']
       else
         (let split_files = os_path_join path_to_manual_folder ''split_data'' in
          Inr [SplitGenerator TRAIN (os_path_join split_files ''train.csv'') ''train'',
               SplitGenerator TEST (os_path_join split_files ''test.csv'') ''test'',
               SplitGenerator VALIDATION (os_path_join split_files ''dev.csv'') ''dev''])))"

text \<open>
  What the ids of a delimited read look like: they are the positions, among the rows
  after the header, of the non-empty rows among the first \<open>k\<close> rows, where \<open>k\<close>
  is the number of rows the loop got through, all of them when no exception ended it.
\<close>

definition ids_are_row_positions :: "string list list \<Rightarrow> generated \<Rightarrow> bool" where
  "ids_are_row_positions rows g \<longleftrightarrow>
     sorted_wrt (<) (map fst (fst g)) \<and>
     (\<exists>k\<le>length rows.
        map fst (fst g) = filter (\<lambda>i. rows ! i \<noteq> []) [0..<k] \<and>
        (snd g = None \<longrightarrow> k = length rows))"

section \<open>Sample inputs\<close>

text \<open>Small file systems, questions and items on which the theorems below are run.\<close>

definition nothing_exists :: os_env where
  "nothing_exists = \<lparr>path_exists = (\<lambda>p. False), expanduser = (\<lambda>p. p), abspath = (\<lambda>p. p)\<rparr>"

definition data_exists :: os_env where
  "data_exists = \<lparr>path_exists = (\<lambda>p. p = ''/data''), expanduser = (\<lambda>p. p), abspath = (\<lambda>p. p)\<rparr>"

definition sample_question :: pyval where
  "sample_question = PDict
     [(PStr ''q'', PStr ''who?''),
      (PStr ''consensus'', PDict [(PStr ''s'', PInt 5)]),
      (PStr ''answers'', PList [PDict [(PStr ''sourcerAnswers'',
          PList [PDict [(PStr ''s'', PInt 1), (PStr ''e'', PInt 2), (PStr ''extra'', PStr ''x'')]])]])]"

definition sample_question_record :: question_record where
  "sample_question_record = QuestionRecord (PStr ''who?'') (PFloat (Finite 0)) (PFloat (Finite 0))
     [(PStr ''s'', PInt 5), (PStr ''e'', PInt 0),
      (PStr ''badQuestion'', PBool False), (PStr ''noAnswer'', PBool False)]
     [AnswerRecord [[(PStr ''s'', PInt 1), (PStr ''e'', PInt 2),
        (PStr ''badQuestion'', PBool False), (PStr ''noAnswer'', PBool False),
        (PStr ''extra'', PStr ''x'')]]]
     []"

definition sample_item :: pyval where
  "sample_item = PDict
     [(PStr ''storyId'', PStr ''A1''), (PStr ''text'', PStr ''story.''),
      (PStr ''type'', PStr ''train''), (PStr ''questions'', PList [sample_question])]"

definition question_without_consensus :: pydict where
  "question_without_consensus = [(PStr ''q'', PStr ''when?'')]"

definition question_without_answers :: pydict where
  "question_without_answers =
     [(PStr ''q'', PStr ''where?''), (PStr ''consensus'', PDict [(PStr ''s'', PInt 5)])]"

definition item_with_bad_question :: pyval where
  "item_with_bad_question = PDict
     [(PStr ''storyId'', PStr ''B2''), (PStr ''text'', PStr ''body''),
      (PStr ''type'', PStr ''train''),
      (PStr ''questions'', PList [sample_question, PDict question_without_consensus])]"

definition full_question :: pyval where
  "full_question = PDict
     [(PStr ''q'', PStr ''why?''),
      (PStr ''isAnswerAbsent'', PInt 1),
      (PStr ''isQuestionBad'', PFloat (Finite 1)),
      (PStr ''consensus'', PDict [(PStr ''s'', PInt 3), (PStr ''note'', PStr ''c'')]),
      (PStr ''answers'', PList [PDict [(PStr ''sourcerAnswers'',
          PList [PDict [(PStr ''noAnswer'', PBool True), (PStr ''note'', PStr ''a'')]])]]),
      (PStr ''validatedAnswers'',
          PList [PDict [(PStr ''s'', PInt 3), (PStr ''count'', PInt 2), (PStr ''note'', PStr ''v'')]])]"

definition full_question_record :: question_record where
  "full_question_record = QuestionRecord (PStr ''why?'') (PInt 1) (PFloat (Finite 1))
     [(PStr ''s'', PInt 3), (PStr ''e'', PInt 0),
      (PStr ''badQuestion'', PBool False), (PStr ''noAnswer'', PBool False),
      (PStr ''note'', PStr ''c'')]
     [AnswerRecord [[(PStr ''s'', PInt 0), (PStr ''e'', PInt 0),
        (PStr ''badQuestion'', PBool False), (PStr ''noAnswer'', PBool True),
        (PStr ''note'', PStr ''a'')]]]
     [[(PStr ''s'', PInt 3), (PStr ''e'', PInt 0),
       (PStr ''badQuestion'', PBool False), (PStr ''noAnswer'', PBool False),
       (PStr ''count'', PInt 2), (PStr ''note'', PStr ''v'')]]"

definition full_item :: pyval where
  "full_item = PDict
     [(PStr ''storyId'', PStr ''B2''), (PStr ''text'', PStr ''body''),
      (PStr ''type'', PStr ''train''),
      (PStr ''questions'', PList [sample_question, full_question])]"

definition sample_document :: pyval where
  "sample_document = PDict
     [(PStr ''version'', PStr ''1''), (PStr ''data'', PList [sample_item, full_item])]"

definition sample_example :: example where
  "sample_example = CombinedJsonExample (PStr ''A1'') (PStr ''story.'') (PStr ''train'')
     [sample_question_record]"

definition full_example :: example where
  "full_example = CombinedJsonExample (PStr ''B2'') (PStr ''body'') (PStr ''train'')
     [sample_question_record, full_question_record]"

section \<open>Properties of the delimited variants\<close>

lemma bind_result_simps [simp]:
  "bind_result (Inl e) f = Inl e"
  "bind_result (Inr v) f = f v"
  by (simp_all add: bind_result_def)

lemma py_index_in_range:
  "0 \<le> i \<Longrightarrow> nat i < length xs \<Longrightarrow> py_index xs i = Inr (xs ! nat i)"
  by (auto simp: py_index_def Let_def)

lemma py_index_out_of_range:
  "0 \<le> i \<Longrightarrow> length xs \<le> nat i \<Longrightarrow> py_index xs i = Inl IndexError"
  by (auto simp: py_index_def Let_def)

lemma py_index_first: "xs \<noteq> [] \<Longrightarrow> py_index xs 0 = Inr (xs ! 0)"
  by (auto simp: py_index_def Let_def)

lemma py_index_last: "xs \<noteq> [] \<Longrightarrow> py_index xs (-1) = Inr (last xs)"
  by (auto simp: py_index_def Let_def last_conv_nth nat_diff_distrib' int_ops)

lemma py_index_error: "py_index xs i = Inl e \<Longrightarrow> e = IndexError"
  by (auto simp: py_index_def Let_def split: if_splits)

lemma py_slice_inner: "py_slice xs 2 (-2) = drop 2 (take (length xs - 2) xs)"
  by (auto simp: py_slice_def slice_bound_def Let_def drop_take max_def min_def
      nat_diff_distrib' int_ops)

lemma combined_csv_row_empty: "combined_csv_row [] = Inl IndexError"
  by (simp add: combined_csv_row_def py_index_def)

lemma combined_csv_row_short:
  "row \<noteq> [] \<Longrightarrow> length row < 2 \<Longrightarrow> combined_csv_row row = Inl IndexError"
  by (simp add: combined_csv_row_def py_index_in_range py_index_out_of_range py_index_last)

lemma combined_csv_row_ok:
  assumes len: "2 \<le> length row"
  shows "combined_csv_row row =
     Inr (CombinedCsvExample (row ! 0) (last row) (row ! 1)
            (py_str_list (drop 2 (take (length row - 2) row))))"
proof -
  from len have ne: "row \<noteq> []" by auto
  have one: "py_index row 1 = Inr (row ! 1)"
    using len by (simp add: py_index_in_range)
  show ?thesis
    by (simp add: combined_csv_row_def py_index_first [OF ne] py_index_last [OF ne] one
        py_slice_inner)
qed

lemma combined_csv_row_error: "combined_csv_row row = Inl e \<Longrightarrow> e = IndexError"
  by (auto simp: combined_csv_row_def bind_result_def split: sum.splits dest: py_index_error)

lemma split_row_short:
  "row \<noteq> [] \<Longrightarrow> length row < 4 \<Longrightarrow> split_row row = Inl IndexError"
  apply (cases "length row = 1"; cases "length row = 2"; cases "length row = 3")
  by (simp_all add: split_row_def py_index_in_range py_index_out_of_range)

lemma split_row_ok:
  assumes len: "4 \<le> length row"
  shows "split_row row = Inr (SplitExample (row ! 0) (row ! 1) (row ! 2) (row ! 3))"
proof -
  from len have ne: "row \<noteq> []" by auto
  show ?thesis
    using len by (simp add: split_row_def py_index_first [OF ne] py_index_in_range)
qed

lemma split_row_error: "split_row row = Inl e \<Longrightarrow> e = IndexError"
  by (auto simp: split_row_def bind_result_def split: sum.splits dest: py_index_error)

lemmas csv_eval = generate_combined_csv_def generate_split_def generate_delimited_def
  combined_csv_row_def split_row_def py_index_def py_str_list_def py_slice_def slice_bound_def
  py_repr_str_def repr_quote_def repr_char_def is_printable_def Let_def

subsection \<open>The ids of a delimited read\<close>

lemma upt_0_Suc: "[0..<Suc k] = 0 # map Suc [0..<k]"
  by (metis map_Suc_upt upt_conv_Cons zero_less_Suc)

lemma filter_nonblank_Suc:
  "filter (\<lambda>j. (x # xs) ! j \<noteq> []) [0..<Suc k] =
     (if x \<noteq> [] then [0] else []) @ map Suc (filter (\<lambda>j. xs ! j \<noteq> []) [0..<k])"
  unfolding upt_0_Suc by (simp add: filter_map o_def)

lemma enumerate_rows_ids:
  "\<exists>k\<le>length rows.
     map fst (fst (enumerate_rows build i rows)) =
       map (\<lambda>j. i + j) (filter (\<lambda>j. rows ! j \<noteq> []) [0..<k]) \<and>
     (snd (enumerate_rows build i rows) = None \<longrightarrow> k = length rows)"
proof (induction rows arbitrary: i)
  case Nil
  show ?case by simp
next
  case (Cons row rows)
  let ?rest = "enumerate_rows build (Suc i) rows"
  from Cons.IH [of "Suc i"] obtain k where all:
    "k \<le> length rows \<and>
     map fst (fst ?rest) = map (\<lambda>j. Suc i + j) (filter (\<lambda>j. rows ! j \<noteq> []) [0..<k]) \<and>
     (snd ?rest = None \<longrightarrow> k = length rows)" ..
  from all have k: "k \<le> length rows" by (rule conjunct1)
  from all have ids: "map fst (fst ?rest) =
      map (\<lambda>j. Suc i + j) (filter (\<lambda>j. rows ! j \<noteq> []) [0..<k])"
    by (rule conjunct1 [OF conjunct2])
  from all have fin: "snd ?rest = None \<longrightarrow> k = length rows"
    by (rule conjunct2 [OF conjunct2])
  show ?case
  proof (cases "row = []")
    case True
    have "map fst (fst (enumerate_rows build i (row # rows))) =
        map (\<lambda>j. i + j) (filter (\<lambda>j. (row # rows) ! j \<noteq> []) [0..<Suc k])"
      unfolding filter_nonblank_Suc using True ids by (simp add: o_def)
    moreover have "snd (enumerate_rows build i (row # rows)) = None \<longrightarrow>
        Suc k = length (row # rows)"
      using True fin by simp
    moreover have "Suc k \<le> length (row # rows)" using k by simp
    ultimately show ?thesis by (intro exI [of _ "Suc k"] conjI)
  next
    case False
    show ?thesis
    proof (cases "build row")
      case (Inl e)
      have "map fst (fst (enumerate_rows build i (row # rows))) =
          map (\<lambda>j. i + j) (filter (\<lambda>j. (row # rows) ! j \<noteq> []) [0..<0])"
        using False Inl by simp
      moreover have "snd (enumerate_rows build i (row # rows)) = None \<longrightarrow>
          0 = length (row # rows)"
        using False Inl by simp
      moreover have "0 \<le> length (row # rows)" by simp
      ultimately show ?thesis by (intro exI [of _ 0] conjI)
    next
      case (Inr ex)
      have res: "enumerate_rows build i (row # rows) = ((i, ex) # fst ?rest, snd ?rest)"
        using False Inr by (simp add: case_prod_beta)
      have "map fst (fst (enumerate_rows build i (row # rows))) =
          map (\<lambda>j. i + j) (filter (\<lambda>j. (row # rows) ! j \<noteq> []) [0..<Suc k])"
        unfolding filter_nonblank_Suc res using False ids by (simp add: o_def)
      moreover have "snd (enumerate_rows build i (row # rows)) = None \<longrightarrow>
          Suc k = length (row # rows)"
        unfolding res using fin by simp
      moreover have "Suc k \<le> length (row # rows)" using k by simp
      ultimately show ?thesis by (intro exI [of _ "Suc k"] conjI)
    qed
  qed
qed

lemma sorted_filter_upt: "sorted_wrt (<) (filter P [0..<k])"
  by (rule sorted_wrt_filter) simp

lemma generate_delimited_ids:
  "ids_are_row_positions rows (generate_delimited build (header # rows))"
proof -
  let ?g = "enumerate_rows build 0 rows"
  from enumerate_rows_ids [of rows build 0] obtain k where all:
    "k \<le> length rows \<and>
     map fst (fst ?g) = map (\<lambda>j. 0 + j) (filter (\<lambda>j. rows ! j \<noteq> []) [0..<k]) \<and>
     (snd ?g = None \<longrightarrow> k = length rows)" ..
  from all have k: "k \<le> length rows" by (rule conjunct1)
  from all have ids: "map fst (fst ?g) = filter (\<lambda>j. rows ! j \<noteq> []) [0..<k]"
    by simp
  from all have fin: "snd ?g = None \<longrightarrow> k = length rows"
    by (rule conjunct2 [OF conjunct2])
  have srt: "sorted_wrt (<) (map fst (fst ?g))"
    unfolding ids by (rule sorted_filter_upt)
  have "\<exists>k\<le>length rows. map fst (fst ?g) = filter (\<lambda>i. rows ! i \<noteq> []) [0..<k] \<and>
        (snd ?g = None \<longrightarrow> k = length rows)"
    using k ids fin by (intro exI [of _ k] conjI)
  with srt have "ids_are_row_positions rows ?g"
    unfolding ids_are_row_positions_def by (rule conjI)
  then show ?thesis by (simp add: generate_delimited_def)
qed

text \<open>
  Claim C1, as the code has it. The claim says that a blank row consumes no id, so that
  the n-th yielded record carries id n-1. The loop enumerates the rows first and tests
  \<^verbatim>\<open>if row\<close> inside, so the counter advances on a blank row too. What holds, for
  the combined-delimited and the split variant alike: the ids are strictly increasing,
  and they are exactly the zero-based positions, among all rows after the header, of
  the non-blank rows the read got through; every blank row leaves a gap.
\<close>

theorem delimited_ids_are_row_positions:
  "ids_are_row_positions rows (generate_combined_csv (header # rows)) \<and>
   ids_are_row_positions rows (generate_split (header # rows))"
  unfolding generate_combined_csv_def generate_split_def
  by (intro conjI generate_delimited_ids)

theorem delimited_ids_are_row_positions_witness:
  "snd (generate_split [[''story_id''], [], [''A1'', ''text'', ''what?'', ''0:3'']]) = None \<and>
   map fst (fst (generate_split [[''story_id''], [], [''A1'', ''text'', ''what?'', ''0:3'']])) = [1]"
proof -
  let ?rows = "[[], [''A1'', ''text'', ''what?'', ''0:3'']]"
  let ?g = "generate_split ([''story_id''] # ?rows)"
  have none: "snd ?g = None" by (simp add: csv_eval)
  have "ids_are_row_positions ?rows ?g"
    by (rule conjunct2 [OF delimited_ids_are_row_positions])
  then obtain k where all:
    "k \<le> length ?rows \<and> map fst (fst ?g) = filter (\<lambda>i. ?rows ! i \<noteq> []) [0..<k] \<and>
     (snd ?g = None \<longrightarrow> k = length ?rows)"
    unfolding ids_are_row_positions_def by (elim conjE exE) (intro that conjI)
  with none have k2: "k = 2" by simp
  from all have "map fst (fst ?g) = filter (\<lambda>i. ?rows ! i \<noteq> []) [0..<k]"
    by (rule conjunct1 [OF conjunct2])
  also have "\<dots> = [1]" unfolding k2 by (simp add: upt_conv_Cons)
  finally show ?thesis using none by (intro conjI)
qed

text \<open>
  Claim C1 as stated fails on a file with one blank row before the only data row: the
  first record yielded carries id 1, not 0, under both delimited variants.
\<close>

theorem blank_row_consumes_id:
  "map fst (fst (generate_combined_csv [[''story_id''], [], [''A1'', ''what?'']])) = [1] \<and>
   map fst (fst (generate_split [[''story_id''], [], [''A1'', ''text'', ''what?'', ''0:3'']])) = [1]"
  by (simp add: csv_eval)

subsection \<open>Where a read stops, and what it yields\<close>

lemma enumerate_rows_stops:
  assumes "\<And>r e. build r = Inl e \<Longrightarrow> e = err" and "row \<noteq> []" and "build row = Inl err"
  shows "enumerate_rows build i (pre @ row # post) = (fst (enumerate_rows build i pre), Some err)"
proof (induction pre arbitrary: i)
  case Nil
  show ?case using assms(2,3) by simp
next
  case (Cons r pre)
  show ?case
  proof (cases "r = []")
    case True
    then show ?thesis using Cons.IH by simp
  next
    case False
    show ?thesis
    proof (cases "build r")
      case (Inl e)
      then have "e = err" using assms(1) by blast
      with Inl False show ?thesis by simp
    next
      case (Inr ex)
      with False show ?thesis using Cons.IH [of "Suc i"] by (simp split: prod.splits)
    qed
  qed
qed

lemma generate_delimited_stops:
  assumes "\<And>r e. build r = Inl e \<Longrightarrow> e = err" and "row \<noteq> []" and "build row = Inl err"
  shows "generate_delimited build (header # pre @ row # post) =
         (fst (generate_delimited build (header # pre)), Some err)"
proof -
  have "enumerate_rows build 0 (pre @ row # post) = (fst (enumerate_rows build 0 pre), Some err)"
    by (rule enumerate_rows_stops) (fact assms)+
  then show ?thesis by (simp add: generate_delimited_def)
qed

lemma enumerate_rows_yield:
  "(j, ex) \<in> set (fst (enumerate_rows build i rows)) \<Longrightarrow>
     i \<le> j \<and> j < i + length rows \<and> build (rows ! (j - i)) = Inr ex"
proof (induction rows arbitrary: i)
  case Nil
  then show ?case by simp
next
  case (Cons row rows)
  let ?rest = "enumerate_rows build (Suc i) rows"
  have later: "i \<le> j \<and> j < i + length (row # rows) \<and> build ((row # rows) ! (j - i)) = Inr ex"
    if "(j, ex) \<in> set (fst ?rest)"
  proof -
    from Cons.IH [OF that]
    have a: "Suc i \<le> j" and b: "j < Suc i + length rows"
      and c: "build (rows ! (j - Suc i)) = Inr ex" by simp_all
    from a have "j - i = Suc (j - Suc i)" by simp
    with a b c show ?thesis by simp
  qed
  show ?case
  proof (cases "row = []")
    case True
    with Cons.prems have "(j, ex) \<in> set (fst ?rest)" by simp
    then show ?thesis by (rule later)
  next
    case False
    show ?thesis
    proof (cases "build row")
      case (Inl e)
      with False Cons.prems show ?thesis by simp
    next
      case (Inr ex0)
      with False Cons.prems have "(j, ex) = (i, ex0) \<or> (j, ex) \<in> set (fst ?rest)"
        by (simp add: case_prod_beta)
      then show ?thesis
      proof
        assume "(j, ex) = (i, ex0)"
        with Inr show ?thesis by simp
      next
        assume "(j, ex) \<in> set (fst ?rest)"
        then show ?thesis by (rule later)
      qed
    qed
  qed
qed

lemma generate_delimited_yield:
  assumes "(i, ex) \<in> set (fst (generate_delimited build (header # rows)))"
  shows "i < length rows \<and> build (rows ! i) = Inr ex"
proof -
  from assms have "(i, ex) \<in> set (fst (enumerate_rows build 0 rows))"
    by (simp add: generate_delimited_def)
  from enumerate_rows_yield [OF this] show ?thesis by simp
qed

lemma combined_csv_row_Inr:
  assumes "combined_csv_row row = Inr ex"
  shows "ex = CombinedCsvExample (row ! 0) (last row) (row ! 1)
            (py_str_list (drop 2 (take (length row - 2) row)))"
proof (cases "2 \<le> length row")
  case True
  from combined_csv_row_ok [OF True] assms show ?thesis by simp
next
  case False
  then have "row = [] \<or> (row \<noteq> [] \<and> length row < 2)" by auto
  then have "combined_csv_row row = Inl IndexError"
    using combined_csv_row_empty combined_csv_row_short by blast
  with assms show ?thesis by simp
qed

subsection \<open>The record built from a row of the combined file\<close>

text \<open>
  Claim C2, as the code has it. On the file with header \<^verbatim>\<open>["id","q","s1","s2","text"]\<close>
  and the single data row \<^verbatim>\<open>["A1","what?","0:3","","story."]\<close> the combined-delimited
  read yields exactly one record, at id 0, with story_id \<^verbatim>\<open>A1\<close>, story_text
  \<^verbatim>\<open>story.\<close>, question \<^verbatim>\<open>what?\<close> and answer_char_ranges \<^verbatim>\<open>['0:3']\<close>: the
  slice \<^verbatim>\<open>row[2:-2]\<close> of a row of five columns holds the third column only. In general
  every yielded record is built from the row at the position its id names, and its
  answer_char_ranges is \<^verbatim>\<open>str\<close> of the list of the columns after the first two and
  before the last two.
\<close>

theorem combined_csv_record_of_row:
  "generate_combined_csv
     [[''id'', ''q'', ''s1'', ''s2'', ''text''], [''A1'', ''what?'', ''0:3'', '''', ''story.'']] =
     ([(0, CombinedCsvExample ''A1'' ''story.'' ''what?''
             (''['' @ [CHR 0x27] @ ''0:3'' @ [CHR 0x27] @ '']''))], None) \<and>
   (\<forall>(i, ex) \<in> set (fst (generate_combined_csv (header # rows))).
      i < length rows \<and>
      ex = CombinedCsvExample (rows ! i ! 0) (last (rows ! i)) (rows ! i ! 1)
             (py_str_list (drop 2 (take (length (rows ! i) - 2) (rows ! i)))))"
proof (intro conjI ballI)
  show "generate_combined_csv
     [[''id'', ''q'', ''s1'', ''s2'', ''text''], [''A1'', ''what?'', ''0:3'', '''', ''story.'']] =
     ([(0, CombinedCsvExample ''A1'' ''story.'' ''what?''
             (''['' @ [CHR 0x27] @ ''0:3'' @ [CHR 0x27] @ '']''))], None)"
    by (simp add: csv_eval)
next
  fix p assume p: "p \<in> set (fst (generate_combined_csv (header # rows)))"
  obtain i ex where ie: "p = (i, ex)" by (cases p)
  from p ie have "(i, ex) \<in> set (fst (generate_delimited combined_csv_row (header # rows)))"
    by (simp add: generate_combined_csv_def)
  from generate_delimited_yield [OF this]
  have "i < length rows" and "combined_csv_row (rows ! i) = Inr ex" by simp_all
  with combined_csv_row_Inr [of "rows ! i" ex] ie
  show "case p of (i, ex) \<Rightarrow> i < length rows \<and>
      ex = CombinedCsvExample (rows ! i ! 0) (last (rows ! i)) (rows ! i ! 1)
             (py_str_list (drop 2 (take (length (rows ! i) - 2) (rows ! i))))"
    by simp
qed

theorem combined_csv_record_of_row_witness:
  "(1, CombinedCsvExample ''B2'' ''body'' ''why?'' (py_str_list [''1:2'', ''3:4'']))
     \<in> set (fst (generate_combined_csv
          [[''h''], [], [''B2'', ''why?'', ''1:2'', ''3:4'', ''x'', ''body'']])) \<and>
   py_str_list [''1:2'', ''3:4''] = py_str_list (drop 2 (take (6 - 2) [''B2'', ''why?'', ''1:2'', ''3:4'', ''x'', ''body'']))"
proof -
  let ?rows = "[[], [''B2'', ''why?'', ''1:2'', ''3:4'', ''x'', ''body'']]"
  let ?ex = "CombinedCsvExample ''B2'' ''body'' ''why?'' (py_str_list [''1:2'', ''3:4''])"
  have mem: "(1, ?ex) \<in> set (fst (generate_combined_csv ([''h''] # ?rows)))"
    by (simp add: csv_eval)
  from combined_csv_record_of_row [of "[''h'']" ?rows]
  have "\<forall>(i, ex) \<in> set (fst (generate_combined_csv ([''h''] # ?rows))).
      i < length ?rows \<and>
      ex = CombinedCsvExample (?rows ! i ! 0) (last (?rows ! i)) (?rows ! i ! 1)
             (py_str_list (drop 2 (take (length (?rows ! i) - 2) (?rows ! i))))"
    by (rule conjunct2)
  from bspec [OF this mem]
  have "py_str_list [''1:2'', ''3:4''] =
     py_str_list (drop 2 (take (6 - 2) [''B2'', ''why?'', ''1:2'', ''3:4'', ''x'', ''body'']))"
    by simp
  with mem show ?thesis by (intro conjI)
qed

text \<open>
  Claim C2 as stated gives \<^verbatim>\<open>['0:3', '']\<close> for the answer_char_ranges of its example;
  the code yields \<^verbatim>\<open>['0:3']\<close>.
\<close>

theorem combined_csv_example_ranges:
  "answer_char_ranges (snd (hd (fst (generate_combined_csv
     [[''id'', ''q'', ''s1'', ''s2'', ''text''], [''A1'', ''what?'', ''0:3'', '''', ''story.'']]))))
   = ''['' @ [CHR 0x27] @ ''0:3'' @ [CHR 0x27] @ '']'' \<and>
   answer_char_ranges (snd (hd (fst (generate_combined_csv
     [[''id'', ''q'', ''s1'', ''s2'', ''text''], [''A1'', ''what?'', ''0:3'', '''', ''story.'']]))))
   \<noteq> ''['' @ [CHR 0x27] @ ''0:3'' @ [CHR 0x27] @ '', '' @ [CHR 0x27, CHR 0x27] @ '']''"
  by (simp add: csv_eval)

subsection \<open>Rows with too few columns\<close>

text \<open>
  Claim C3. The rows a variant maps to a record are the non-empty ones; a blank row is
  the empty row that is skipped and is no error. A row that has columns but too few
  of them for the positions read (fewer than two under the combined-delimited variant,
  which reads positions 0, 1 and the last; fewer than four under the split variant,
  which reads positions 0 to 3) ends the read with \<^verbatim>\<open>IndexError\<close> at that row:
  what was yielded is what the rows before it yield, the row is not skipped, and no
  row after it is looked at.
\<close>

theorem short_row_ends_read:
  "(row \<noteq> [] \<and> length row < 2 \<longrightarrow>
      generate_combined_csv (header # pre @ row # post) =
        (fst (generate_combined_csv (header # pre)), Some IndexError)) \<and>
   (row \<noteq> [] \<and> length row < 4 \<longrightarrow>
      generate_split (header # pre @ row # post) =
        (fst (generate_split (header # pre)), Some IndexError))"
proof (intro conjI impI)
  assume "row \<noteq> [] \<and> length row < 2"
  then have ne: "row \<noteq> []" and bad: "combined_csv_row row = Inl IndexError"
    by (simp_all add: combined_csv_row_short)
  show "generate_combined_csv (header # pre @ row # post) =
        (fst (generate_combined_csv (header # pre)), Some IndexError)"
    unfolding generate_combined_csv_def
    by (rule generate_delimited_stops [where build = combined_csv_row and err = IndexError,
        OF combined_csv_row_error ne bad])
next
  assume "row \<noteq> [] \<and> length row < 4"
  then have ne: "row \<noteq> []" and bad: "split_row row = Inl IndexError"
    by (simp_all add: split_row_short)
  show "generate_split (header # pre @ row # post) =
        (fst (generate_split (header # pre)), Some IndexError)"
    unfolding generate_split_def
    by (rule generate_delimited_stops [where build = split_row and err = IndexError,
        OF split_row_error ne bad])
qed

theorem short_row_ends_read_witness:
  "generate_combined_csv [[''h''], [''A1'', ''what?''], [''only''], [''B2'', ''why?'']] =
     ([(0, CombinedCsvExample ''A1'' ''what?'' ''what?'' ''[]'')], Some IndexError) \<and>
   generate_split [[''h''], [''A1'', ''t'', ''q'', ''r''], [''a'', ''b'', ''c''], [''B2'', ''t'', ''q'', ''r'']] =
     ([(0, SplitExample ''A1'' ''t'' ''q'' ''r'')], Some IndexError)"
proof -
  have a: "[''only''] \<noteq> [] \<and> length [''only''] < 2" by simp
  have b: "[''a'', ''b'', ''c''] \<noteq> [] \<and> length [''a'', ''b'', ''c''] < 4" by simp
  from short_row_ends_read [of "[''only'']" "[''h'']" "[[''A1'', ''what?'']]" "[[''B2'', ''why?'']]"] a
  have "generate_combined_csv ([''h''] # [[''A1'', ''what?'']] @ [''only''] # [[''B2'', ''why?'']]) =
        (fst (generate_combined_csv ([''h''] # [[''A1'', ''what?'']])), Some IndexError)"
    by blast
  moreover
  from short_row_ends_read [of "[''a'', ''b'', ''c'']" "[''h'']" "[[''A1'', ''t'', ''q'', ''r'']]" "[[''B2'', ''t'', ''q'', ''r'']]"] b
  have "generate_split ([''h''] # [[''A1'', ''t'', ''q'', ''r'']] @ [''a'', ''b'', ''c''] # [[''B2'', ''t'', ''q'', ''r'']]) =
        (fst (generate_split ([''h''] # [[''A1'', ''t'', ''q'', ''r'']])), Some IndexError)"
    by blast
  ultimately show ?thesis by (simp add: csv_eval)
qed

section \<open>Properties of the format selector\<close>

lemma os_path_join_plain:
  "a \<noteq> [] \<Longrightarrow> last a \<noteq> CHR ''/'' \<Longrightarrow> b \<noteq> [] \<Longrightarrow> hd b \<noteq> CHR ''/'' \<Longrightarrow>
     os_path_join a b = a @ ''/'' @ b"
  by (simp add: os_path_join_def)

text \<open>
  Claim C7. Whatever the configuration, when the manual folder (the supplied directory,
  made absolute) does not exist, \<^verbatim>\<open>_split_generators\<close> raises
  \<^verbatim>\<open>FileNotFoundError\<close>. Its message starts with the path that was expected and ends
  with the manual download instructions. The only path the function asked the file
  system about is that folder: no partition file is touched, and no generator is
  returned from which a partition could be read.
\<close>

theorem missing_root_raises:
  assumes "\<not> path_exists env (abspath env (expanduser env manual_dir))"
  shows "split_generators env config_name manual_dir =
           ([abspath env (expanduser env manual_dir)],
            Inl (FileNotFoundError (missing_dir_message (abspath env (expanduser env manual_dir))))) \<and>
         prefix (abspath env (expanduser env manual_dir))
           (missing_dir_message (abspath env (expanduser env manual_dir))) \<and>
         suffix manual_download_instructions
           (missing_dir_message (abspath env (expanduser env manual_dir)))"
proof (intro conjI)
  show "split_generators env config_name manual_dir =
           ([abspath env (expanduser env manual_dir)],
            Inl (FileNotFoundError (missing_dir_message (abspath env (expanduser env manual_dir)))))"
    using assms by (simp add: split_generators_def Let_def)
  show "prefix (abspath env (expanduser env manual_dir))
           (missing_dir_message (abspath env (expanduser env manual_dir)))"
    unfolding missing_dir_message_def by (rule prefixI) (rule refl)
  show "suffix manual_download_instructions
           (missing_dir_message (abspath env (expanduser env manual_dir)))"
    unfolding missing_dir_message_def by (simp add: suffix_def)
qed

theorem missing_root_raises_witness:
  "\<not> path_exists nothing_exists (abspath nothing_exists (expanduser nothing_exists ''/nodata'')) \<and>
   split_generators nothing_exists ''split'' ''/nodata'' =
     ([''/nodata''], Inl (FileNotFoundError (missing_dir_message ''/nodata'')))"
proof -
  have h: "\<not> path_exists nothing_exists (abspath nothing_exists (expanduser nothing_exists ''/nodata''))"
    by (simp add: nothing_exists_def)
  from missing_root_raises [OF h, of "''split''"] h show ?thesis
    by (simp add: nothing_exists_def)
qed

text \<open>
  Claim C8. When the manual folder exists, the split configuration resolves to exactly
  three partitions: train from \<^verbatim>\<open>split_data/train.csv\<close>, test from
  \<^verbatim>\<open>split_data/test.csv\<close> and dev, the validation partition, from
  \<^verbatim>\<open>split_data/dev.csv\<close>, all under the folder; combined-csv resolves to the single
  file \<^verbatim>\<open>combined-newsqa-data-v1.csv\<close> and combined-json to
  \<^verbatim>\<open>combined-newsqa-data-v1.json\<close> under the folder. For a folder path that does
  not end in a slash the joined paths are the folder followed by the slash-separated
  names.
\<close>

theorem partitions_of_configurations:
  assumes "path_exists env folder" and "folder = abspath env (expanduser env manual_dir)"
  shows "snd (split_generators env ''split'' manual_dir) =
           Inr [SplitGenerator TRAIN
                  (os_path_join (os_path_join folder ''split_data'') ''train.csv'') ''train'',
                SplitGenerator TEST
                  (os_path_join (os_path_join folder ''split_data'') ''test.csv'') ''test'',
                SplitGenerator VALIDATION
                  (os_path_join (os_path_join folder ''split_data'') ''dev.csv'') ''dev''] \<and>
         snd (split_generators env ''combined-csv'' manual_dir) =
           Inr [SplitGenerator TRAIN
                  (os_path_join folder ''combined-newsqa-data-v1.csv'') ''combined''] \<and>
         snd (split_generators env ''combined-json'' manual_dir) =
           Inr [SplitGenerator TRAIN
                  (os_path_join folder ''combined-newsqa-data-v1.json'') ''combined''] \<and>
         (folder \<noteq> [] \<and> last folder \<noteq> CHR ''/'' \<longrightarrow>
            os_path_join (os_path_join folder ''split_data'') ''train.csv'' =
              folder @ ''/split_data/train.csv'' \<and>
            os_path_join (os_path_join folder ''split_data'') ''test.csv'' =
              folder @ ''/split_data/test.csv'' \<and>
            os_path_join (os_path_join folder ''split_data'') ''dev.csv'' =
              folder @ ''/split_data/dev.csv'' \<and>
            os_path_join folder ''combined-newsqa-data-v1.csv'' =
              folder @ ''/combined-newsqa-data-v1.csv'' \<and>
            os_path_join folder ''combined-newsqa-data-v1.json'' =
              folder @ ''/combined-newsqa-data-v1.json'')"
proof (intro conjI impI)
  show "snd (split_generators env ''split'' manual_dir) =
           Inr [SplitGenerator TRAIN
                  (os_path_join (os_path_join folder ''split_data'') ''train.csv'') ''train'',
                SplitGenerator TEST
                  (os_path_join (os_path_join folder ''split_data'') ''test.csv'') ''test'',
                SplitGenerator VALIDATION
                  (os_path_join (os_path_join folder ''split_data'') ''dev.csv'') ''dev'']"
    using assms by (simp add: split_generators_def Let_def)
  show "snd (split_generators env ''combined-csv'' manual_dir) =
           Inr [SplitGenerator TRAIN
                  (os_path_join folder ''combined-newsqa-data-v1.csv'') ''combined'']"
    using assms by (simp add: split_generators_def Let_def)
  show "snd (split_generators env ''combined-json'' manual_dir) =
           Inr [SplitGenerator TRAIN
                  (os_path_join folder ''combined-newsqa-data-v1.json'') ''combined'']"
    using assms by (simp add: split_generators_def Let_def)
next
  assume r: "folder \<noteq> [] \<and> last folder \<noteq> CHR ''/''"
  then have sd: "os_path_join folder ''split_data'' = folder @ ''/split_data''"
    by (simp add: os_path_join_def)
  show "os_path_join (os_path_join folder ''split_data'') ''train.csv'' = folder @ ''/split_data/train.csv''"
    unfolding sd by (simp add: os_path_join_def)
  show "os_path_join (os_path_join folder ''split_data'') ''test.csv'' = folder @ ''/split_data/test.csv''"
    unfolding sd by (simp add: os_path_join_def)
  show "os_path_join (os_path_join folder ''split_data'') ''dev.csv'' = folder @ ''/split_data/dev.csv''"
    unfolding sd by (simp add: os_path_join_def)
  show "os_path_join folder ''combined-newsqa-data-v1.csv'' = folder @ ''/combined-newsqa-data-v1.csv''"
    using r by (simp add: os_path_join_def)
  show "os_path_join folder ''combined-newsqa-data-v1.json'' = folder @ ''/combined-newsqa-data-v1.json''"
    using r by (simp add: os_path_join_def)
qed

theorem partitions_of_configurations_witness:
  "path_exists data_exists ''/data'' \<and>
   snd (split_generators data_exists ''split'' ''/data'') =
     Inr [SplitGenerator TRAIN ''/data/split_data/train.csv'' ''train'',
          SplitGenerator TEST ''/data/split_data/test.csv'' ''test'',
          SplitGenerator VALIDATION ''/data/split_data/dev.csv'' ''dev''] \<and>
   snd (split_generators data_exists ''combined-csv'' ''/data'') =
     Inr [SplitGenerator TRAIN ''/data/combined-newsqa-data-v1.csv'' ''combined''] \<and>
   snd (split_generators data_exists ''combined-json'' ''/data'') =
     Inr [SplitGenerator TRAIN ''/data/combined-newsqa-data-v1.json'' ''combined'']"
proof -
  have ex: "path_exists data_exists ''/data''" by (simp add: data_exists_def)
  have rt: "''/data'' = abspath data_exists (expanduser data_exists ''/data'')"
    by (simp add: data_exists_def)
  have shape: "''/data'' \<noteq> [] \<and> last ''/data'' \<noteq> CHR ''/''" by simp
  from partitions_of_configurations [OF ex rt] shape ex show ?thesis
    by simp
qed

section \<open>Properties of the structured variant\<close>

subsection \<open>Dictionaries\<close>

lemma key_norm_str: "key_norm k = PStr s \<longleftrightarrow> k = PStr s"
  by (cases k) auto

lemma key_eq_str [simp]: "key_eq (PStr s) k \<longleftrightarrow> k = PStr s"
  unfolding key_eq_def by (cases k) auto

lemma key_eq_refl [simp]: "key_eq k k"
  by (simp add: key_eq_def)

lemma key_norm_is_str: "is_str k \<Longrightarrow> key_norm k = k"
  by (cases k) auto

lemma is_str_hashable: "is_str k \<Longrightarrow> hashable k"
  by (cases k) auto

lemma dict_lookup_cong: "key_eq a b \<Longrightarrow> dict_lookup d a = dict_lookup d b"
  by (induction d) (auto simp: key_eq_def)

lemma dict_lookup_set:
  "dict_lookup (dict_set d k v) k' = (if key_eq k k' then Some v else dict_lookup d k')"
  by (induction d) (auto simp: key_eq_def)

lemma dict_lookup_None_iff:
  "dict_lookup d k = None \<longleftrightarrow> (\<forall>k' \<in> set (map fst d). \<not> key_eq k' k)"
  by (induction d) (auto split: if_splits)

lemma dict_lookup_key: "key \<in> set (map fst d) \<Longrightarrow> dict_lookup d key \<noteq> None"
  unfolding dict_lookup_None_iff by (metis key_eq_refl)

lemma override_keys_dict:
  assumes "\<forall>key \<in> set keys. hashable key \<and> dict_lookup raw key \<noteq> None"
  shows "\<exists>d'. override_keys (PDict raw) d keys = Inr d' \<and>
           (\<forall>k. dict_lookup d' k =
              (if \<exists>key \<in> set keys. key_eq key k then dict_lookup raw k else dict_lookup d k))"
  using assms
proof (induction keys arbitrary: d)
  case Nil
  show ?case by simp
next
  case (Cons key keys)
  from Cons.prems have h: "hashable key" and "dict_lookup raw key \<noteq> None" by simp_all
  then obtain v where v: "dict_lookup raw key = Some v" by (cases "dict_lookup raw key") auto
  from Cons.prems have rest: "\<forall>key \<in> set keys. hashable key \<and> dict_lookup raw key \<noteq> None"
    by simp
  from Cons.IH [OF rest, of "dict_set d key v"] obtain d' where
    run: "override_keys (PDict raw) (dict_set d key v) keys = Inr d'" and
    look: "\<And>k. dict_lookup d' k =
       (if \<exists>key \<in> set keys. key_eq key k then dict_lookup raw k
        else dict_lookup (dict_set d key v) k)"
    by (elim exE conjE) (rule that, assumption, simp)
  have step: "override_keys (PDict raw) d (key # keys) = Inr d'"
    using h v run by (simp add: py_setitem_def)
  have "dict_lookup d' k =
      (if \<exists>key' \<in> set (key # keys). key_eq key' k then dict_lookup raw k else dict_lookup d k)"
    for k
  proof (cases "\<exists>key' \<in> set keys. key_eq key' k")
    case True
    then show ?thesis using look [of k] by auto
  next
    case False
    show ?thesis
    proof (cases "key_eq key k")
      case True
      then have "dict_lookup raw k = Some v" using v dict_lookup_cong [of key k raw] by simp
      with True False show ?thesis using look [of k] by (simp add: dict_lookup_set)
    next
      case nk: False
      with False show ?thesis using look [of k] by (simp add: dict_lookup_set)
    qed
  qed
  with step show ?case by (intro exI [of _ d'] conjI allI)
qed

lemma override_own_keys:
  assumes "list_all is_str (map fst raw)"
  shows "\<exists>d'. override_keys (PDict raw) d (map fst raw) = Inr d' \<and>
           (\<forall>k. dict_lookup d' k =
              (case dict_lookup raw k of Some v \<Rightarrow> Some v | None \<Rightarrow> dict_lookup d k))"
proof -
  have keys: "\<forall>key \<in> set (map fst raw). hashable key \<and> dict_lookup raw key \<noteq> None"
  proof
    fix key assume m: "key \<in> set (map fst raw)"
    with assms have "is_str key" by (auto simp: list_all_iff)
    then have "hashable key" by (rule is_str_hashable)
    moreover from m have "dict_lookup raw key \<noteq> None" by (rule dict_lookup_key)
    ultimately show "hashable key \<and> dict_lookup raw key \<noteq> None" ..
  qed
  from override_keys_dict [OF keys, of d] obtain d' where
    run: "override_keys (PDict raw) d (map fst raw) = Inr d'" and
    look: "\<And>k. dict_lookup d' k =
       (if \<exists>key \<in> set (map fst raw). key_eq key k then dict_lookup raw k else dict_lookup d k)"
    by (elim exE conjE) (rule that, assumption, simp)
  have "dict_lookup d' k = (case dict_lookup raw k of Some v \<Rightarrow> Some v | None \<Rightarrow> dict_lookup d k)"
    for k
  proof (cases "dict_lookup raw k")
    case None
    then have "\<not> (\<exists>key \<in> set (map fst raw). key_eq key k)"
      unfolding dict_lookup_None_iff by blast
    with None show ?thesis using look [of k] by simp
  next
    case (Some v)
    then have "\<exists>key \<in> set (map fst raw). key_eq key k"
      using dict_lookup_None_iff [of raw k] by auto
    with Some show ?thesis using look [of k] by simp
  qed
  with run show ?thesis by (intro exI [of _ d'] conjI allI)
qed

lemma dict_merge_Cons:
  "dict_merge d ((k, v) # kvs) = dict_merge (dict_set d k v) kvs"
  by (simp add: dict_merge_def)

lemma dict_merge_lookup:
  assumes "distinct (map (\<lambda>p. key_norm (fst p)) kvs)"
  shows "dict_lookup (dict_merge d kvs) k =
           (case dict_lookup kvs k of Some v \<Rightarrow> Some v | None \<Rightarrow> dict_lookup d k)"
  using assms
proof (induction kvs arbitrary: d)
  case Nil
  show ?case by (simp add: dict_merge_def)
next
  case (Cons p kvs)
  obtain k0 v0 where p: "p = (k0, v0)" by (cases p)
  from Cons.prems p have fresh: "key_norm k0 \<notin> (\<lambda>p. key_norm (fst p)) ` set kvs"
    and dist: "distinct (map (\<lambda>p. key_norm (fst p)) kvs)" by simp_all
  have ih: "dict_lookup (dict_merge (dict_set d k0 v0) kvs) k =
      (case dict_lookup kvs k of Some v \<Rightarrow> Some v | None \<Rightarrow> dict_lookup (dict_set d k0 v0) k)"
    by (rule Cons.IH [OF dist])
  show ?case
  proof (cases "key_eq k0 k")
    case True
    have "dict_lookup kvs k = None"
      unfolding dict_lookup_None_iff
    proof
      fix k' assume "k' \<in> set (map fst kvs)"
      then have "key_norm k' \<in> (\<lambda>p. key_norm (fst p)) ` set kvs" by auto
      with fresh have "key_norm k' \<noteq> key_norm k0" by metis
      with True show "\<not> key_eq k' k" by (simp add: key_eq_def)
    qed
    with True show ?thesis unfolding p dict_merge_Cons ih by (simp add: dict_lookup_set)
  next
    case False
    then show ?thesis unfolding p dict_merge_Cons ih
      by (simp add: dict_lookup_set split: option.splits)
  qed
qed

lemma json_object_distinct:
  assumes "json_object kvs"
  shows "distinct (map (\<lambda>p. key_norm (fst p)) kvs)"
proof -
  from assms have s: "\<forall>p \<in> set kvs. is_str (fst p)" and d: "distinct (map fst kvs)"
    by (simp_all add: json_object_def list_all_iff)
  have "map (\<lambda>p. key_norm (fst p)) kvs = map fst kvs"
    by (rule map_cong [OF refl]) (simp add: s key_norm_is_str)
  then show ?thesis using d by (simp only:)
qed

subsection \<open>Merging a raw object over the defaults\<close>

lemma bind_result_Inr:
  "bind_result r f = Inr y \<longleftrightarrow> (\<exists>v. r = Inr v \<and> f v = Inr y)"
  by (cases r) (simp_all add: bind_result_def)

lemma json_object_str_keys: "json_object raw \<Longrightarrow> list_all is_str (map fst raw)"
  by (simp add: json_object_def)

lemma build_consensus_object:
  assumes "json_object raw"
  shows "\<exists>c. build_consensus (PDict raw) = Inr c \<and>
           (\<forall>k. dict_lookup c k =
              (case dict_lookup raw k of Some v \<Rightarrow> Some v | None \<Rightarrow> dict_lookup default_span k))"
  using override_own_keys [OF json_object_str_keys [OF assms], of default_span]
  by (simp add: build_consensus_def)

lemma build_sourcer_answer_object:
  assumes "json_object raw"
  shows "\<exists>c. build_sourcer_answer (PDict raw) = Inr c \<and>
           (\<forall>k. dict_lookup c k =
              (case dict_lookup raw k of Some v \<Rightarrow> Some v | None \<Rightarrow> dict_lookup default_span k))"
  using override_own_keys [OF json_object_str_keys [OF assms], of default_span]
  by (simp add: build_sourcer_answer_def)

lemma build_validated_answer_object:
  assumes "json_object raw"
  shows "\<exists>c. build_validated_answer (PDict raw) = Inr c \<and>
           (\<forall>k. dict_lookup c k =
              (case dict_lookup raw k of Some v \<Rightarrow> Some v
               | None \<Rightarrow> dict_lookup default_validated_answer k))"
  using dict_merge_lookup [OF json_object_distinct [OF assms]] by simp

lemma build_question_dict:
  assumes "build_question ques = Inr qr"
  shows "\<exists>kvs. ques = PDict kvs"
  using assms by (cases ques) (simp_all add: build_question_def)

lemma build_question_parts:
  assumes "build_question (PDict kvs) = Inr qr"
  shows "\<exists>rc ra anss.
    py_getitem (PDict kvs) (PStr ''consensus'') = Inr rc \<and>
    build_consensus rc = Inr (consensus qr) \<and>
    py_getitem (PDict kvs) (PStr ''answers'') = Inr ra \<and>
    py_iter ra = Inr anss \<and>
    map_result build_answer anss = Inr (answers qr) \<and>
    build_validated_answers kvs = Inr (validated_answers qr) \<and>
    isAnswerAbsent qr = get_or_zero kvs ''isAnswerAbsent'' \<and>
    isQuestionBad qr = get_or_zero kvs ''isQuestionBad''"
  using assms unfolding build_question_def
  by (auto simp: bind_result_Inr simp del: py_getitem.simps)

subsection \<open>Evaluating the sample inputs\<close>

lemmas json_eval = build_question_def build_consensus_def build_sourcer_answer_def
  build_answer_def build_validated_answers_def get_or_zero_def py_setitem_def
  default_span_def default_validated_answer_def dict_merge_def build_item_def
  generate_combined_json_def generate_examples_def json_object_def

lemma sample_question_builds: "build_question sample_question = Inr sample_question_record"
  by (simp add: sample_question_def sample_question_record_def json_eval)

subsection \<open>From the read to the parts of a yielded question\<close>

lemma map_result_length: "map_result f xs = Inr ys \<Longrightarrow> length ys = length xs"
  by (induction xs arbitrary: ys) (auto split: sum.splits)

lemma map_result_nth:
  "map_result f xs = Inr ys \<Longrightarrow> j < length xs \<Longrightarrow> f (xs ! j) = Inr (ys ! j)"
proof (induction xs arbitrary: ys j)
  case Nil
  then show ?case by simp
next
  case (Cons x xs)
  from Cons.prems(1) obtain y ys' where y: "f x = Inr y" and r: "map_result f xs = Inr ys'"
    and ys: "ys = y # ys'"
    by (auto split: sum.splits)
  show ?case
  proof (cases j)
    case 0
    with y ys show ?thesis by simp
  next
    case (Suc j')
    with Cons.prems(2) have "j' < length xs" by simp
    from Cons.IH [OF r this] Suc ys show ?thesis by simp
  qed
qed

lemma enumerate_items_yield:
  "(j, ex) \<in> set (fst (enumerate_items i items)) \<Longrightarrow>
     i \<le> j \<and> j < i + length items \<and> build_item (items ! (j - i)) = Inr ex"
proof (induction items arbitrary: i)
  case Nil
  then show ?case by simp
next
  case (Cons item items)
  let ?rest = "enumerate_items (Suc i) items"
  show ?case
  proof (cases "build_item item")
    case (Inl e)
    with Cons.prems show ?thesis by simp
  next
    case (Inr ex0)
    with Cons.prems have "(j, ex) = (i, ex0) \<or> (j, ex) \<in> set (fst ?rest)"
      by (simp add: case_prod_beta)
    then show ?thesis
    proof
      assume "(j, ex) = (i, ex0)"
      with Inr show ?thesis by simp
    next
      assume "(j, ex) \<in> set (fst ?rest)"
      from Cons.IH [OF this]
      have a: "Suc i \<le> j" and b: "j < Suc i + length items"
        and c: "build_item (items ! (j - Suc i)) = Inr ex" by simp_all
      from a have "j - i = Suc (j - Suc i)" by simp
      with a b c show ?thesis by simp
    qed
  qed
qed

lemma generate_combined_json_yield:
  assumes "(i, ex) \<in> set (fst (generate_combined_json d))"
    and "py_getitem d (PStr ''data'') = Inr data" and "py_iter data = Inr items"
  shows "i < length items \<and> build_item (items ! i) = Inr ex"
proof -
  from assms have "(i, ex) \<in> set (fst (enumerate_items 0 items))"
    by (simp add: generate_combined_json_def)
  from enumerate_items_yield [OF this] show ?thesis by simp
qed

lemma build_item_parts:
  assumes "build_item item = Inr ex"
  shows "\<exists>rq quess.
    py_getitem item (PStr ''questions'') = Inr rq \<and> py_iter rq = Inr quess \<and>
    map_result build_question quess = Inr (questions ex) \<and>
    py_getitem item (PStr ''storyId'') = Inr (storyId ex) \<and>
    py_getitem item (PStr ''text'') = Inr (text_field ex) \<and>
    py_getitem item (PStr ''type'') = Inr (type_field ex)"
  using assms unfolding build_item_def
  by (auto simp: bind_result_Inr simp del: py_getitem.simps)

lemma yielded_question:
  assumes "(i, ex) \<in> set (fst (generate_combined_json d))"
    and "py_getitem d (PStr ''data'') = Inr data" and "py_iter data = Inr items"
    and "py_getitem (items ! i) (PStr ''questions'') = Inr rq" and "py_iter rq = Inr quess"
    and "j < length quess"
  shows "j < length (questions ex) \<and> build_question (quess ! j) = Inr (questions ex ! j)"
proof -
  from generate_combined_json_yield [OF assms(1-3)]
  have "build_item (items ! i) = Inr ex" by simp
  from build_item_parts [OF this] assms(4,5)
  have m: "map_result build_question quess = Inr (questions ex)" by auto
  from map_result_length [OF m] map_result_nth [OF m assms(6)] assms(6)
  show ?thesis by simp
qed

lemma built_consensus:
  assumes "build_question ques = Inr qr"
    and "py_getitem ques (PStr ''consensus'') = Inr (PDict raw)" and "json_object raw"
  shows "dict_lookup (consensus qr) k =
           (case dict_lookup raw k of Some v \<Rightarrow> Some v | None \<Rightarrow> dict_lookup default_span k)"
proof -
  from build_question_dict [OF assms(1)] obtain kvs where k: "ques = PDict kvs" ..
  from build_question_parts [OF assms(1) [unfolded k]] assms(2) [unfolded k]
  have b: "build_consensus (PDict raw) = Inr (consensus qr)" by auto
  from build_consensus_object [OF assms(3)] b show ?thesis by auto
qed

lemma build_answer_parts:
  assumes "build_answer ans = Inr ar"
  shows "\<exists>rsa sas. py_getitem ans (PStr ''sourcerAnswers'') = Inr rsa \<and>
           py_iter rsa = Inr sas \<and>
           map_result build_sourcer_answer sas = Inr (sourcerAnswers ar)"
  using assms unfolding build_answer_def
  by (auto simp: bind_result_Inr simp del: py_getitem.simps)

lemma built_sourcer_answer:
  assumes "build_question ques = Inr qr"
    and "py_getitem ques (PStr ''answers'') = Inr ra" and "py_iter ra = Inr anss"
    and "a < length anss"
    and "py_getitem (anss ! a) (PStr ''sourcerAnswers'') = Inr rsa" and "py_iter rsa = Inr sas"
    and "b < length sas" and "sas ! b = PDict raw" and "json_object raw"
  shows "a < length (answers qr) \<and> b < length (sourcerAnswers (answers qr ! a)) \<and>
         dict_lookup (sourcerAnswers (answers qr ! a) ! b) k =
           (case dict_lookup raw k of Some v \<Rightarrow> Some v | None \<Rightarrow> dict_lookup default_span k)"
proof -
  from build_question_dict [OF assms(1)] obtain kvs where k: "ques = PDict kvs" ..
  from build_question_parts [OF assms(1) [unfolded k]] assms(2,3) [unfolded k]
  have m: "map_result build_answer anss = Inr (answers qr)" by auto
  from map_result_length [OF m] assms(4) have la: "a < length (answers qr)" by simp
  from map_result_nth [OF m assms(4)]
  have "build_answer (anss ! a) = Inr (answers qr ! a)" .
  from build_answer_parts [OF this] assms(5,6)
  have ms: "map_result build_sourcer_answer sas = Inr (sourcerAnswers (answers qr ! a))"
    by auto
  from map_result_length [OF ms] assms(7)
  have lb: "b < length (sourcerAnswers (answers qr ! a))" by simp
  from map_result_nth [OF ms assms(7)] assms(8)
  have bs: "build_sourcer_answer (PDict raw) = Inr (sourcerAnswers (answers qr ! a) ! b)"
    by simp
  from build_sourcer_answer_object [OF assms(9)] bs
  have "dict_lookup (sourcerAnswers (answers qr ! a) ! b) k =
           (case dict_lookup raw k of Some v \<Rightarrow> Some v | None \<Rightarrow> dict_lookup default_span k)"
    by auto
  with la lb show ?thesis by simp
qed

lemma built_validated_answers:
  assumes "build_question ques = Inr qr"
    and "py_getitem ques (PStr ''validatedAnswers'') = Inr rva" and "py_iter rva = Inr vas"
  shows "map_result build_validated_answer vas = Inr (validated_answers qr)"
proof -
  from build_question_dict [OF assms(1)] obtain kvs where k: "ques = PDict kvs" ..
  from assms(2) [unfolded k] have l: "dict_lookup kvs (PStr ''validatedAnswers'') = Some rva"
    by (simp split: option.splits)
  from build_question_parts [OF assms(1) [unfolded k]]
  have "build_validated_answers kvs = Inr (validated_answers qr)" by auto
  with l assms(3) show ?thesis by (simp add: build_validated_answers_def)
qed

lemma built_validated_answer:
  assumes "build_question ques = Inr qr"
    and "py_getitem ques (PStr ''validatedAnswers'') = Inr rva" and "py_iter rva = Inr vas"
    and "b < length vas" and "vas ! b = PDict raw" and "json_object raw"
  shows "b < length (validated_answers qr) \<and>
         dict_lookup (validated_answers qr ! b) k =
           (case dict_lookup raw k of Some v \<Rightarrow> Some v
            | None \<Rightarrow> dict_lookup default_validated_answer k)"
proof -
  note m = built_validated_answers [OF assms(1-3)]
  from map_result_length [OF m] assms(4) have lb: "b < length (validated_answers qr)" by simp
  from map_result_nth [OF m assms(4)] assms(5)
  have bv: "build_validated_answer (PDict raw) = Inr (validated_answers qr ! b)" by simp
  from build_validated_answer_object [OF assms(6)] bv
  have "dict_lookup (validated_answers qr ! b) k =
           (case dict_lookup raw k of Some v \<Rightarrow> Some v
            | None \<Rightarrow> dict_lookup default_validated_answer k)"
    by auto
  with lb show ?thesis by simp
qed

lemma built_optional_numbers:
  assumes "build_question (PDict ques) = Inr qr"
  shows "isAnswerAbsent qr =
           (case dict_lookup ques (PStr ''isAnswerAbsent'') of
              None \<Rightarrow> PFloat (Finite 0) | Some v \<Rightarrow> v) \<and>
         isQuestionBad qr =
           (case dict_lookup ques (PStr ''isQuestionBad'') of
              None \<Rightarrow> PFloat (Finite 0) | Some v \<Rightarrow> v) \<and>
         (dict_lookup ques (PStr ''validatedAnswers'') = None \<longrightarrow> validated_answers qr = [])"
proof -
  from build_question_parts [OF assms]
  have va0: "build_validated_answers ques = Inr (validated_answers qr)"
    and a: "isAnswerAbsent qr = get_or_zero ques ''isAnswerAbsent''"
    and b: "isQuestionBad qr = get_or_zero ques ''isQuestionBad''"
    by blast+
  have none: "validated_answers qr = []"
    if "dict_lookup ques (PStr ''validatedAnswers'') = None"
    using va0 that by (simp add: build_validated_answers_def)
  show ?thesis
    using a b none by (simp add: get_or_zero_def)
qed

lemma full_question_builds: "build_question full_question = Inr full_question_record"
  by (simp add: full_question_def full_question_record_def json_eval)

lemma sample_document_read:
  "generate_combined_json sample_document = ([(0, sample_example), (1, full_example)], None)"
  by (simp add: sample_document_def generate_combined_json_def build_item_def sample_item_def
      full_item_def sample_question_builds full_question_builds sample_example_def
      full_example_def)

lemma sample_document_items:
  "py_getitem sample_document (PStr ''data'') = Inr (PList [sample_item, full_item])"
  "py_iter (PList [sample_item, full_item]) = Inr [sample_item, full_item]"
  by (simp_all add: sample_document_def)

lemma sample_item_questions:
  "py_getitem ([sample_item, full_item] ! 0) (PStr ''questions'') = Inr (PList [sample_question])"
  "py_iter (PList [sample_question]) = Inr [sample_question]"
  by (simp_all add: sample_item_def)

lemma full_item_questions:
  "py_getitem ([sample_item, full_item] ! 1) (PStr ''questions'') =
     Inr (PList [sample_question, full_question])"
  "py_iter (PList [sample_question, full_question]) = Inr [sample_question, full_question]"
  by (simp_all add: full_item_def)

lemma sample_document_yields:
  "(0, sample_example) \<in> set (fst (generate_combined_json sample_document))"
  "(1, full_example) \<in> set (fst (generate_combined_json sample_document))"
  by (simp_all add: sample_document_read)

subsection \<open>Defaults and overrides of a yielded question\<close>

text \<open>
  Claim C4. Under the combined-structured read, for a raw consensus object the
  consensus of the yielded question starts from the default (s 0, e 0, badQuestion
  false, noAnswer false) and is overridden key by key: looking a key up in it gives
  the raw value where the raw object has the key and the default otherwise. The
  question is the one at the same position in the yielded record as the raw question
  in the item. The raw object with the single key s at 5 gives s 5, e 0, badQuestion
  false, noAnswer false, on its own and when a document holding it is read.
\<close>

theorem consensus_defaults_keywise:
  "(json_object raw \<longrightarrow>
      (\<exists>c. build_consensus (PDict raw) = Inr c \<and>
         (\<forall>k. dict_lookup c k =
            (case dict_lookup raw k of Some v \<Rightarrow> Some v
             | None \<Rightarrow> dict_lookup default_span k)))) \<and>
   build_consensus (PDict [(PStr ''s'', PInt 5)]) =
     Inr [(PStr ''s'', PInt 5), (PStr ''e'', PInt 0),
          (PStr ''badQuestion'', PBool False), (PStr ''noAnswer'', PBool False)] \<and>
   fst (generate_combined_json (PDict [(PStr ''data'', PList [PDict
      [(PStr ''storyId'', PStr ''A1''), (PStr ''text'', PStr ''story.''),
       (PStr ''type'', PStr ''train''),
       (PStr ''questions'', PList [PDict
          [(PStr ''q'', PStr ''who?''), (PStr ''consensus'', PDict [(PStr ''s'', PInt 5)]),
           (PStr ''answers'', PList [])]])]])])) =
     [(0, CombinedJsonExample (PStr ''A1'') (PStr ''story.'') (PStr ''train'')
        [QuestionRecord (PStr ''who?'') (PFloat (Finite 0)) (PFloat (Finite 0))
           [(PStr ''s'', PInt 5), (PStr ''e'', PInt 0),
            (PStr ''badQuestion'', PBool False), (PStr ''noAnswer'', PBool False)]
           [] []])] \<and>
   ((i, ex) \<in> set (fst (generate_combined_json d)) \<and>
    py_getitem d (PStr ''data'') = Inr data \<and> py_iter data = Inr items \<and>
    py_getitem (items ! i) (PStr ''questions'') = Inr rq \<and> py_iter rq = Inr quess \<and>
    j < length quess \<and>
    py_getitem (quess ! j) (PStr ''consensus'') = Inr (PDict raw) \<and> json_object raw \<longrightarrow>
      j < length (questions ex) \<and>
      (\<forall>k. dict_lookup (consensus (questions ex ! j)) k =
         (case dict_lookup raw k of Some v \<Rightarrow> Some v
          | None \<Rightarrow> dict_lookup default_span k)))"
proof (intro conjI impI allI)
  assume "json_object raw"
  then show "\<exists>c. build_consensus (PDict raw) = Inr c \<and>
         (\<forall>k. dict_lookup c k =
            (case dict_lookup raw k of Some v \<Rightarrow> Some v
             | None \<Rightarrow> dict_lookup default_span k))"
    by (rule build_consensus_object)
next
  show "build_consensus (PDict [(PStr ''s'', PInt 5)]) =
     Inr [(PStr ''s'', PInt 5), (PStr ''e'', PInt 0),
          (PStr ''badQuestion'', PBool False), (PStr ''noAnswer'', PBool False)]"
    by (simp add: json_eval)
next
  show "fst (generate_combined_json (PDict [(PStr ''data'', PList [PDict
      [(PStr ''storyId'', PStr ''A1''), (PStr ''text'', PStr ''story.''),
       (PStr ''type'', PStr ''train''),
       (PStr ''questions'', PList [PDict
          [(PStr ''q'', PStr ''who?''), (PStr ''consensus'', PDict [(PStr ''s'', PInt 5)]),
           (PStr ''answers'', PList [])]])]])])) =
     [(0, CombinedJsonExample (PStr ''A1'') (PStr ''story.'') (PStr ''train'')
        [QuestionRecord (PStr ''who?'') (PFloat (Finite 0)) (PFloat (Finite 0))
           [(PStr ''s'', PInt 5), (PStr ''e'', PInt 0),
            (PStr ''badQuestion'', PBool False), (PStr ''noAnswer'', PBool False)]
           [] []])]"
    by (simp add: json_eval)
next
  assume h: "(i, ex) \<in> set (fst (generate_combined_json d)) \<and>
    py_getitem d (PStr ''data'') = Inr data \<and> py_iter data = Inr items \<and>
    py_getitem (items ! i) (PStr ''questions'') = Inr rq \<and> py_iter rq = Inr quess \<and>
    j < length quess \<and>
    py_getitem (quess ! j) (PStr ''consensus'') = Inr (PDict raw) \<and> json_object raw"
  then have y: "(i, ex) \<in> set (fst (generate_combined_json d))"
    and n1: "py_getitem d (PStr ''data'') = Inr data" and n2: "py_iter data = Inr items"
    and n3: "py_getitem (items ! i) (PStr ''questions'') = Inr rq" and n4: "py_iter rq = Inr quess"
    and n5: "j < length quess"
    and c: "py_getitem (quess ! j) (PStr ''consensus'') = Inr (PDict raw)"
    and jo: "json_object raw"
    by simp_all
  from yielded_question [OF y n1 n2 n3 n4 n5]
  have len: "j < length (questions ex)"
    and b: "build_question (quess ! j) = Inr (questions ex ! j)" by simp_all
  from len show "j < length (questions ex)" .
  fix k
  from built_consensus [OF b c jo]
  show "dict_lookup (consensus (questions ex ! j)) k =
         (case dict_lookup raw k of Some v \<Rightarrow> Some v
          | None \<Rightarrow> dict_lookup default_span k)" .
qed

theorem consensus_defaults_keywise_witness:
  "(0, sample_example) \<in> set (fst (generate_combined_json sample_document)) \<and>
   py_getitem sample_question (PStr ''consensus'') = Inr (PDict [(PStr ''s'', PInt 5)]) \<and>
   json_object [(PStr ''s'', PInt 5)] \<and>
   consensus (questions sample_example ! 0) =
     [(PStr ''s'', PInt 5), (PStr ''e'', PInt 0),
      (PStr ''badQuestion'', PBool False), (PStr ''noAnswer'', PBool False)] \<and>
   dict_lookup (consensus (questions sample_example ! 0)) (PStr ''s'') = Some (PInt 5) \<and>
   dict_lookup (consensus (questions sample_example ! 0)) (PStr ''e'') = Some (PInt 0) \<and>
   dict_lookup (consensus (questions sample_example ! 0)) (PStr ''badQuestion'') = Some (PBool False) \<and>
   dict_lookup (consensus (questions sample_example ! 0)) (PStr ''noAnswer'') = Some (PBool False)"
proof -
  let ?raw = "[(PStr ''s'', PInt 5)]"
  have jo: "json_object ?raw" by (simp add: json_object_def)
  have c: "py_getitem ([sample_question] ! 0) (PStr ''consensus'') = Inr (PDict ?raw)"
    by (simp add: sample_question_def)
  have j: "0 < length [sample_question]" by simp
  note inst = consensus_defaults_keywise
    [where raw = ?raw and i = 0 and ex = sample_example and d = sample_document
       and data = "PList [sample_item, full_item]" and items = "[sample_item, full_item]"
       and rq = "PList [sample_question]" and quess = "[sample_question]" and j = 0]
  from inst sample_document_yields(1) sample_document_items sample_item_questions j c jo
  have look: "\<And>k. dict_lookup (consensus (questions sample_example ! 0)) k =
         (case dict_lookup ?raw k of Some v \<Rightarrow> Some v
          | None \<Rightarrow> dict_lookup default_span k)"
    by blast
  have whole: "consensus (questions sample_example ! 0) =
     [(PStr ''s'', PInt 5), (PStr ''e'', PInt 0),
      (PStr ''badQuestion'', PBool False), (PStr ''noAnswer'', PBool False)]"
    by (simp add: sample_example_def sample_question_record_def)
  have c': "py_getitem sample_question (PStr ''consensus'') = Inr (PDict ?raw)"
    using c by simp
  have "dict_lookup (consensus (questions sample_example ! 0)) (PStr ''s'') = Some (PInt 5)"
    "dict_lookup (consensus (questions sample_example ! 0)) (PStr ''e'') = Some (PInt 0)"
    "dict_lookup (consensus (questions sample_example ! 0)) (PStr ''badQuestion'') = Some (PBool False)"
    "dict_lookup (consensus (questions sample_example ! 0)) (PStr ''noAnswer'') = Some (PBool False)"
    by (simp_all add: look default_span_def)
  with sample_document_yields(1) c' jo whole show ?thesis by (intro conjI)
qed

text \<open>
  Claim C5. Under the combined-structured read, the question yielded for a raw question
  object without the keys \<^verbatim>\<open>isAnswerAbsent\<close>, \<^verbatim>\<open>isQuestionBad\<close> and
  \<^verbatim>\<open>validatedAnswers\<close> has isAnswerAbsent and isQuestionBad zero (the float
  \<^verbatim>\<open>0.0\<close>, which Python compares equal to the integer 0) and an empty list of
  validated answers. Where a key is present its raw value overrides the default: the
  two numbers are the raw values, and the validated answers are as many as the raw
  sequence has, each raw entry laid over the default entry key by key.
\<close>

theorem question_defaults:
  assumes "(i, ex) \<in> set (fst (generate_combined_json d))"
    and "py_getitem d (PStr ''data'') = Inr data" and "py_iter data = Inr items"
    and "py_getitem (items ! i) (PStr ''questions'') = Inr rq" and "py_iter rq = Inr quess"
    and "j < length quess" and "quess ! j = PDict ques"
  shows "j < length (questions ex) \<and>
         (dict_lookup ques (PStr ''isAnswerAbsent'') = None \<and>
          dict_lookup ques (PStr ''isQuestionBad'') = None \<and>
          dict_lookup ques (PStr ''validatedAnswers'') = None \<longrightarrow>
            isAnswerAbsent (questions ex ! j) = PFloat (Finite 0) \<and>
            key_eq (isAnswerAbsent (questions ex ! j)) (PInt 0) \<and>
            isQuestionBad (questions ex ! j) = PFloat (Finite 0) \<and>
            key_eq (isQuestionBad (questions ex ! j)) (PInt 0) \<and>
            validated_answers (questions ex ! j) = []) \<and>
         isAnswerAbsent (questions ex ! j) =
           (case dict_lookup ques (PStr ''isAnswerAbsent'') of
              None \<Rightarrow> PFloat (Finite 0) | Some v \<Rightarrow> v) \<and>
         isQuestionBad (questions ex ! j) =
           (case dict_lookup ques (PStr ''isQuestionBad'') of
              None \<Rightarrow> PFloat (Finite 0) | Some v \<Rightarrow> v) \<and>
         (dict_lookup ques (PStr ''validatedAnswers'') = Some rva \<and> py_iter rva = Inr vas \<longrightarrow>
            length (validated_answers (questions ex ! j)) = length vas \<and>
            (b < length vas \<and> vas ! b = PDict raw \<and> json_object raw \<longrightarrow>
               (\<forall>k. dict_lookup (validated_answers (questions ex ! j) ! b) k =
                  (case dict_lookup raw k of Some v \<Rightarrow> Some v
                   | None \<Rightarrow> dict_lookup default_validated_answer k))))"
proof -
  let ?qr = "questions ex ! j"
  from yielded_question [OF assms(1-6)] assms(7)
  have len: "j < length (questions ex)"
    and b: "build_question (PDict ques) = Inr ?qr" by simp_all
  from built_optional_numbers [OF b]
  have a1: "isAnswerAbsent ?qr =
           (case dict_lookup ques (PStr ''isAnswerAbsent'') of
              None \<Rightarrow> PFloat (Finite 0) | Some v \<Rightarrow> v)"
    and a2: "isQuestionBad ?qr =
           (case dict_lookup ques (PStr ''isQuestionBad'') of
              None \<Rightarrow> PFloat (Finite 0) | Some v \<Rightarrow> v)"
    and a3: "dict_lookup ques (PStr ''validatedAnswers'') = None \<longrightarrow> validated_answers ?qr = []"
    by simp_all
  have lacking: "isAnswerAbsent ?qr = PFloat (Finite 0) \<and> key_eq (isAnswerAbsent ?qr) (PInt 0) \<and>
            isQuestionBad ?qr = PFloat (Finite 0) \<and> key_eq (isQuestionBad ?qr) (PInt 0) \<and>
            validated_answers ?qr = []"
    if "dict_lookup ques (PStr ''isAnswerAbsent'') = None \<and>
        dict_lookup ques (PStr ''isQuestionBad'') = None \<and>
        dict_lookup ques (PStr ''validatedAnswers'') = None"
    using that a1 a2 a3 by (simp add: key_eq_def)
  have present: "length (validated_answers ?qr) = length vas \<and>
            (b < length vas \<and> vas ! b = PDict raw \<and> json_object raw \<longrightarrow>
               (\<forall>k. dict_lookup (validated_answers ?qr ! b) k =
                  (case dict_lookup raw k of Some v \<Rightarrow> Some v
                   | None \<Rightarrow> dict_lookup default_validated_answer k)))"
    if p: "dict_lookup ques (PStr ''validatedAnswers'') = Some rva \<and> py_iter rva = Inr vas"
  proof -
    from p have g: "py_getitem (PDict ques) (PStr ''validatedAnswers'') = Inr rva"
      and it: "py_iter rva = Inr vas" by simp_all
    from map_result_length [OF built_validated_answers [OF b g it]]
    have l: "length (validated_answers ?qr) = length vas" .
    have "\<forall>k. dict_lookup (validated_answers ?qr ! b) k =
                  (case dict_lookup raw k of Some v \<Rightarrow> Some v
                   | None \<Rightarrow> dict_lookup default_validated_answer k)"
      if q: "b < length vas \<and> vas ! b = PDict raw \<and> json_object raw"
    proof
      fix k
      from q have q1: "b < length vas" and q2: "vas ! b = PDict raw" and q3: "json_object raw"
        by simp_all
      from built_validated_answer [OF b g it q1 q2 q3, of k]
      show "dict_lookup (validated_answers ?qr ! b) k =
                  (case dict_lookup raw k of Some v \<Rightarrow> Some v
                   | None \<Rightarrow> dict_lookup default_validated_answer k)"
        by (rule conjunct2)
    qed
    with l show ?thesis by (intro conjI impI)
  qed
  from lacking have lacking': "dict_lookup ques (PStr ''isAnswerAbsent'') = None \<and>
          dict_lookup ques (PStr ''isQuestionBad'') = None \<and>
          dict_lookup ques (PStr ''validatedAnswers'') = None \<longrightarrow>
            isAnswerAbsent ?qr = PFloat (Finite 0) \<and> key_eq (isAnswerAbsent ?qr) (PInt 0) \<and>
            isQuestionBad ?qr = PFloat (Finite 0) \<and> key_eq (isQuestionBad ?qr) (PInt 0) \<and>
            validated_answers ?qr = []"
    by (rule impI)
  from present have present': "dict_lookup ques (PStr ''validatedAnswers'') = Some rva \<and>
        py_iter rva = Inr vas \<longrightarrow>
            length (validated_answers ?qr) = length vas \<and>
            (b < length vas \<and> vas ! b = PDict raw \<and> json_object raw \<longrightarrow>
               (\<forall>k. dict_lookup (validated_answers ?qr ! b) k =
                  (case dict_lookup raw k of Some v \<Rightarrow> Some v
                   | None \<Rightarrow> dict_lookup default_validated_answer k)))"
    by (rule impI)
  from len lacking' a1 a2 present' show ?thesis by (intro conjI)
qed

theorem question_defaults_witness:
  "(0, sample_example) \<in> set (fst (generate_combined_json sample_document)) \<and>
   isAnswerAbsent (questions sample_example ! 0) = PFloat (Finite 0) \<and>
   isQuestionBad (questions sample_example ! 0) = PFloat (Finite 0) \<and>
   validated_answers (questions sample_example ! 0) = [] \<and>
   (1, full_example) \<in> set (fst (generate_combined_json sample_document)) \<and>
   isAnswerAbsent (questions full_example ! 1) = PInt 1 \<and>
   isQuestionBad (questions full_example ! 1) = PFloat (Finite 1) \<and>
   length (validated_answers (questions full_example ! 1)) = 1 \<and>
   dict_lookup (validated_answers (questions full_example ! 1) ! 0) (PStr ''count'') = Some (PInt 2) \<and>
   dict_lookup (validated_answers (questions full_example ! 1) ! 0) (PStr ''e'') = Some (PInt 0)"
proof -
  let ?lacking = "[(PStr ''q'', PStr ''who?''),
      (PStr ''consensus'', PDict [(PStr ''s'', PInt 5)]),
      (PStr ''answers'', PList [PDict [(PStr ''sourcerAnswers'',
          PList [PDict [(PStr ''s'', PInt 1), (PStr ''e'', PInt 2), (PStr ''extra'', PStr ''x'')]])]])]"
  have q0: "[sample_question] ! 0 = PDict ?lacking" by (simp add: sample_question_def)
  have j0: "0 < length [sample_question]" by simp
  note first = question_defaults [OF sample_document_yields(1) sample_document_items
      sample_item_questions j0 q0]
  have a: "isAnswerAbsent (questions sample_example ! 0) = PFloat (Finite 0) \<and>
     isQuestionBad (questions sample_example ! 0) = PFloat (Finite 0) \<and>
     validated_answers (questions sample_example ! 0) = []"
    using first by simp
  let ?raw = "[(PStr ''s'', PInt 3), (PStr ''count'', PInt 2), (PStr ''note'', PStr ''v'')]"
  let ?full = "[(PStr ''q'', PStr ''why?''),
      (PStr ''isAnswerAbsent'', PInt 1),
      (PStr ''isQuestionBad'', PFloat (Finite 1)),
      (PStr ''consensus'', PDict [(PStr ''s'', PInt 3), (PStr ''note'', PStr ''c'')]),
      (PStr ''answers'', PList [PDict [(PStr ''sourcerAnswers'',
          PList [PDict [(PStr ''noAnswer'', PBool True), (PStr ''note'', PStr ''a'')]])]]),
      (PStr ''validatedAnswers'', PList [PDict ?raw])]"
  have q1: "[sample_question, full_question] ! 1 = PDict ?full" by (simp add: full_question_def)
  have j1: "1 < length [sample_question, full_question]" by simp
  note second = question_defaults [OF sample_document_yields(2) sample_document_items
      full_item_questions j1 q1, where rva = "PList [PDict ?raw]" and vas = "[PDict ?raw]"
      and b = 0 and raw = ?raw]
  have jo: "json_object ?raw" by (simp add: json_object_def)
  have n: "isAnswerAbsent (questions full_example ! 1) = PInt 1 \<and>
     isQuestionBad (questions full_example ! 1) = PFloat (Finite 1)"
    using second by simp
  have l: "length (validated_answers (questions full_example ! 1)) = 1"
    using second by simp
  have look: "\<And>k. dict_lookup (validated_answers (questions full_example ! 1) ! 0) k =
                  (case dict_lookup ?raw k of Some v \<Rightarrow> Some v
                   | None \<Rightarrow> dict_lookup default_validated_answer k)"
    using second jo by simp
  have v: "dict_lookup (validated_answers (questions full_example ! 1) ! 0) (PStr ''count'') = Some (PInt 2)"
    "dict_lookup (validated_answers (questions full_example ! 1) ! 0) (PStr ''e'') = Some (PInt 0)"
    unfolding look by (simp_all add: default_validated_answer_def)
  from a n l v sample_document_yields show ?thesis by (intro conjI) simp_all
qed

text \<open>
  Claim C6. Under the combined-json configuration, when the document that was loaded
  is an object without the key \<^verbatim>\<open>data\<close>, the read ends with \<^verbatim>\<open>KeyError\<close> on
  that key and has yielded no record.
\<close>

theorem missing_data_key:
  assumes "json_load f = Inr (PDict d)" and "dict_lookup d (PStr ''data'') = None"
  shows "generate_examples ''combined-json'' f = ([], Some (KeyError (PStr ''data'')))"
  using assms by (simp add: generate_examples_def generate_combined_json_def)

theorem missing_data_key_witness:
  "generate_examples ''combined-json''
     \<lparr>csv_reader = [], json_load = Inr (PDict [(PStr ''version'', PStr ''1'')])\<rparr> =
   ([], Some (KeyError (PStr ''data'')))"
  using missing_data_key
    [of "\<lparr>csv_reader = [], json_load = Inr (PDict [(PStr ''version'', PStr ''1'')])\<rparr>"
        "[(PStr ''version'', PStr ''1'')]"]
  by simp

text \<open>
  Claim C10. Under the combined-structured read, the merge of a raw object over the
  defaults keeps every key of the raw object with its raw value, whether or not the
  key belongs to the span schema: the key is found with that value in the consensus
  of the yielded question, in the entry of \<^verbatim>\<open>sourcerAnswers\<close> at the same
  position of the same answer, and in the entry of \<^verbatim>\<open>validated_answers\<close> at the
  same position.
\<close>

theorem merge_keeps_every_raw_key:
  assumes "(i, ex) \<in> set (fst (generate_combined_json d))"
    and "py_getitem d (PStr ''data'') = Inr data" and "py_iter data = Inr items"
    and "py_getitem (items ! i) (PStr ''questions'') = Inr rq" and "py_iter rq = Inr quess"
    and "j < length quess"
    and "json_object raw" and "dict_lookup raw k = Some v"
  shows "j < length (questions ex) \<and>
         (py_getitem (quess ! j) (PStr ''consensus'') = Inr (PDict raw) \<longrightarrow>
            dict_lookup (consensus (questions ex ! j)) k = Some v) \<and>
         (py_getitem (quess ! j) (PStr ''answers'') = Inr ra \<and> py_iter ra = Inr anss \<and>
          a < length anss \<and>
          py_getitem (anss ! a) (PStr ''sourcerAnswers'') = Inr rsa \<and> py_iter rsa = Inr sas \<and>
          b < length sas \<and> sas ! b = PDict raw \<longrightarrow>
            a < length (answers (questions ex ! j)) \<and>
            b < length (sourcerAnswers (answers (questions ex ! j) ! a)) \<and>
            dict_lookup (sourcerAnswers (answers (questions ex ! j) ! a) ! b) k = Some v) \<and>
         (py_getitem (quess ! j) (PStr ''validatedAnswers'') = Inr rva \<and> py_iter rva = Inr vas \<and>
          c < length vas \<and> vas ! c = PDict raw \<longrightarrow>
            c < length (validated_answers (questions ex ! j)) \<and>
            dict_lookup (validated_answers (questions ex ! j) ! c) k = Some v)"
proof -
  let ?qr = "questions ex ! j"
  from yielded_question [OF assms(1-6)]
  have len: "j < length (questions ex)"
    and bq: "build_question (quess ! j) = Inr ?qr" by simp_all
  have cons: "py_getitem (quess ! j) (PStr ''consensus'') = Inr (PDict raw) \<longrightarrow>
            dict_lookup (consensus ?qr) k = Some v"
  proof
    assume "py_getitem (quess ! j) (PStr ''consensus'') = Inr (PDict raw)"
    from built_consensus [OF bq this assms(7), of k] assms(8)
    show "dict_lookup (consensus ?qr) k = Some v" by simp
  qed
  have src: "py_getitem (quess ! j) (PStr ''answers'') = Inr ra \<and> py_iter ra = Inr anss \<and>
          a < length anss \<and>
          py_getitem (anss ! a) (PStr ''sourcerAnswers'') = Inr rsa \<and> py_iter rsa = Inr sas \<and>
          b < length sas \<and> sas ! b = PDict raw \<longrightarrow>
            a < length (answers ?qr) \<and>
            b < length (sourcerAnswers (answers ?qr ! a)) \<and>
            dict_lookup (sourcerAnswers (answers ?qr ! a) ! b) k = Some v"
  proof
    assume h: "py_getitem (quess ! j) (PStr ''answers'') = Inr ra \<and> py_iter ra = Inr anss \<and>
          a < length anss \<and>
          py_getitem (anss ! a) (PStr ''sourcerAnswers'') = Inr rsa \<and> py_iter rsa = Inr sas \<and>
          b < length sas \<and> sas ! b = PDict raw"
    then have h1: "py_getitem (quess ! j) (PStr ''answers'') = Inr ra"
      and h2: "py_iter ra = Inr anss" and h3: "a < length anss"
      and h4: "py_getitem (anss ! a) (PStr ''sourcerAnswers'') = Inr rsa"
      and h5: "py_iter rsa = Inr sas" and h6: "b < length sas" and h7: "sas ! b = PDict raw"
      by simp_all
    from built_sourcer_answer [OF bq h1 h2 h3 h4 h5 h6 h7 assms(7), of k] assms(8)
    show "a < length (answers ?qr) \<and>
            b < length (sourcerAnswers (answers ?qr ! a)) \<and>
            dict_lookup (sourcerAnswers (answers ?qr ! a) ! b) k = Some v"
      by simp
  qed
  have val: "py_getitem (quess ! j) (PStr ''validatedAnswers'') = Inr rva \<and>
          py_iter rva = Inr vas \<and> c < length vas \<and> vas ! c = PDict raw \<longrightarrow>
            c < length (validated_answers ?qr) \<and>
            dict_lookup (validated_answers ?qr ! c) k = Some v"
  proof
    assume h: "py_getitem (quess ! j) (PStr ''validatedAnswers'') = Inr rva \<and>
          py_iter rva = Inr vas \<and> c < length vas \<and> vas ! c = PDict raw"
    then have h1: "py_getitem (quess ! j) (PStr ''validatedAnswers'') = Inr rva"
      and h2: "py_iter rva = Inr vas" and h3: "c < length vas" and h4: "vas ! c = PDict raw"
      by simp_all
    from built_validated_answer [OF bq h1 h2 h3 h4 assms(7), of k] assms(8)
    show "c < length (validated_answers ?qr) \<and>
            dict_lookup (validated_answers ?qr ! c) k = Some v"
      by simp
  qed
  from len cons src val show ?thesis by (intro conjI)
qed

theorem merge_keeps_every_raw_key_witness:
  "(1, full_example) \<in> set (fst (generate_combined_json sample_document)) \<and>
   dict_lookup (consensus (questions full_example ! 1)) (PStr ''note'') = Some (PStr ''c'') \<and>
   dict_lookup (sourcerAnswers (answers (questions full_example ! 1) ! 0) ! 0) (PStr ''note'')
     = Some (PStr ''a'') \<and>
   dict_lookup (validated_answers (questions full_example ! 1) ! 0) (PStr ''note'')
     = Some (PStr ''v'')"
proof -
  let ?rc = "[(PStr ''s'', PInt 3), (PStr ''note'', PStr ''c'')]"
  let ?rs = "[(PStr ''noAnswer'', PBool True), (PStr ''note'', PStr ''a'')]"
  let ?rv = "[(PStr ''s'', PInt 3), (PStr ''count'', PInt 2), (PStr ''note'', PStr ''v'')]"
  have j1: "1 < length [sample_question, full_question]" by simp
  have jc: "json_object ?rc" and js: "json_object ?rs" and jv: "json_object ?rv"
    by (simp_all add: json_object_def)
  have lc: "dict_lookup ?rc (PStr ''note'') = Some (PStr ''c'')"
    and ls: "dict_lookup ?rs (PStr ''note'') = Some (PStr ''a'')"
    and lv: "dict_lookup ?rv (PStr ''note'') = Some (PStr ''v'')"
    by simp_all
  have gc: "py_getitem ([sample_question, full_question] ! 1) (PStr ''consensus'') = Inr (PDict ?rc)"
    by (simp add: full_question_def)
  have ga: "py_getitem ([sample_question, full_question] ! 1) (PStr ''answers'') =
      Inr (PList [PDict [(PStr ''sourcerAnswers'', PList [PDict ?rs])]])"
    by (simp add: full_question_def)
  have gs: "py_getitem ([PDict [(PStr ''sourcerAnswers'', PList [PDict ?rs])]] ! 0)
      (PStr ''sourcerAnswers'') = Inr (PList [PDict ?rs])"
    by simp
  have gv: "py_getitem ([sample_question, full_question] ! 1) (PStr ''validatedAnswers'') =
      Inr (PList [PDict ?rv])"
    by (simp add: full_question_def)
  note nav = sample_document_yields(2) sample_document_items full_item_questions j1
  from merge_keeps_every_raw_key [OF nav jc lc] gc
  have c: "dict_lookup (consensus (questions full_example ! 1)) (PStr ''note'') = Some (PStr ''c'')"
    by blast
  from merge_keeps_every_raw_key [OF nav js ls,
      where ra = "PList [PDict [(PStr ''sourcerAnswers'', PList [PDict ?rs])]]"
        and anss = "[PDict [(PStr ''sourcerAnswers'', PList [PDict ?rs])]]" and a = 0
        and rsa = "PList [PDict ?rs]" and sas = "[PDict ?rs]" and b = 0] ga gs
  have s: "dict_lookup (sourcerAnswers (answers (questions full_example ! 1) ! 0) ! 0)
      (PStr ''note'') = Some (PStr ''a'')"
    by simp
  from merge_keeps_every_raw_key [OF nav jv lv,
      where rva = "PList [PDict ?rv]" and vas = "[PDict ?rv]" and c = 0] gv
  have v: "dict_lookup (validated_answers (questions full_example ! 1) ! 0) (PStr ''note'')
      = Some (PStr ''v'')"
    by simp
  from sample_document_yields(2) c s v show ?thesis by (intro conjI)
qed

subsection \<open>Keys that have no default\<close>

lemma map_result_fails:
  "x \<in> set xs \<Longrightarrow> f x = Inl e \<Longrightarrow> \<exists>e'. map_result f xs = Inl e'"
  by (induction xs) (auto split: sum.splits)

lemma enumerate_items_stops:
  assumes "build_item item = Inl e"
  shows "\<exists>e'. enumerate_items i (pre @ item # post) = (fst (enumerate_items i pre), Some e')"
proof (induction pre arbitrary: i)
  case Nil
  show ?case using assms by simp
next
  case (Cons p pre)
  show ?case
  proof (cases "build_item p")
    case (Inl e0)
    then show ?thesis by simp
  next
    case (Inr ex)
    from Cons.IH [of "Suc i"] obtain e' where
      "enumerate_items (Suc i) (pre @ item # post) = (fst (enumerate_items (Suc i) pre), Some e')" ..
    with Inr have "enumerate_items i ((p # pre) @ item # post) =
        (fst (enumerate_items i (p # pre)), Some e')"
      by (simp add: case_prod_beta)
    then show ?thesis ..
  qed
qed

lemma build_question_needs_both:
  assumes "dict_lookup ques (PStr ''consensus'') = None \<or>
           dict_lookup ques (PStr ''answers'') = None"
  shows "\<exists>e. build_question (PDict ques) = Inl e"
proof (cases "build_question (PDict ques)")
  case (Inl e)
  then show ?thesis ..
next
  case (Inr qr)
  from build_question_parts [OF Inr] assms show ?thesis
    by (auto split: option.splits)
qed

lemma build_item_bad_question:
  assumes "py_getitem item (PStr ''questions'') = Inr raw_questions"
    and "py_iter raw_questions = Inr quess"
    and "ques \<in> set quess" and "build_question ques = Inl e"
  shows "\<exists>e'. build_item item = Inl e'"
proof -
  from map_result_fails [of ques quess build_question e, OF assms(3,4)] obtain e' where
    "map_result build_question quess = Inl e'" ..
  with assms(1,2) have "build_item item = Inl e'"
    by (simp add: build_item_def)
  then show ?thesis ..
qed

text \<open>
  Claim C9. A raw question object without the key \<^verbatim>\<open>consensus\<close> or without the
  key \<^verbatim>\<open>answers\<close> is never built: \<^verbatim>\<open>build_question\<close> raises. With \<^verbatim>\<open>q\<close>
  present the exception is the \<^verbatim>\<open>KeyError\<close> on \<^verbatim>\<open>consensus\<close>; with a
  consensus that builds, it is the \<^verbatim>\<open>KeyError\<close> on \<^verbatim>\<open>answers\<close>. The read
  ends with an exception at the item that holds the question, having yielded only
  what the items before it yield. A missing \<^verbatim>\<open>validatedAnswers\<close>, in contrast,
  gives the empty list.
\<close>

theorem question_needs_consensus_and_answers:
  assumes "dict_lookup ques (PStr ''consensus'') = None \<or>
           dict_lookup ques (PStr ''answers'') = None"
  shows "(\<exists>e. build_question (PDict ques) = Inl e) \<and>
         (dict_lookup ques (PStr ''q'') \<noteq> None \<and>
          dict_lookup ques (PStr ''consensus'') = None \<longrightarrow>
            build_question (PDict ques) = Inl (KeyError (PStr ''consensus''))) \<and>
         (dict_lookup ques (PStr ''q'') \<noteq> None \<and>
          dict_lookup ques (PStr ''consensus'') = Some rc \<and> build_consensus rc = Inr c \<and>
          dict_lookup ques (PStr ''answers'') = None \<longrightarrow>
            build_question (PDict ques) = Inl (KeyError (PStr ''answers''))) \<and>
         (py_getitem item (PStr ''questions'') = Inr raw_questions \<and>
          py_iter raw_questions = Inr quess \<and> PDict ques \<in> set quess \<and>
          py_getitem d (PStr ''data'') = Inr (PList (pre @ item # post)) \<longrightarrow>
            (\<exists>e. generate_combined_json d =
               (fst (generate_combined_json (PDict [(PStr ''data'', PList pre)])), Some e))) \<and>
         (dict_lookup ques (PStr ''validatedAnswers'') = None \<longrightarrow>
            build_validated_answers ques = Inr [])"
proof (intro conjI impI)
  show fails: "\<exists>e. build_question (PDict ques) = Inl e"
    using assms by (rule build_question_needs_both)
  show "build_question (PDict ques) = Inl (KeyError (PStr ''consensus''))"
    if "dict_lookup ques (PStr ''q'') \<noteq> None \<and> dict_lookup ques (PStr ''consensus'') = None"
    using that by (auto simp: build_question_def)
  show "build_question (PDict ques) = Inl (KeyError (PStr ''answers''))"
    if "dict_lookup ques (PStr ''q'') \<noteq> None \<and>
        dict_lookup ques (PStr ''consensus'') = Some rc \<and> build_consensus rc = Inr c \<and>
        dict_lookup ques (PStr ''answers'') = None"
    using that by (auto simp: build_question_def)
  show "\<exists>e. generate_combined_json d =
          (fst (generate_combined_json (PDict [(PStr ''data'', PList pre)])), Some e)"
    if h: "py_getitem item (PStr ''questions'') = Inr raw_questions \<and>
        py_iter raw_questions = Inr quess \<and> PDict ques \<in> set quess \<and>
        py_getitem d (PStr ''data'') = Inr (PList (pre @ item # post))"
  proof -
    from fails obtain e where e: "build_question (PDict ques) = Inl e" ..
    from h have a: "py_getitem item (PStr ''questions'') = Inr raw_questions"
      and b: "py_iter raw_questions = Inr quess" and m: "PDict ques \<in> set quess"
      and dd: "py_getitem d (PStr ''data'') = Inr (PList (pre @ item # post))"
      by simp_all
    from build_item_bad_question [OF a b m e] obtain e1 where "build_item item = Inl e1" ..
    from enumerate_items_stops [OF this, of 0 pre post] obtain e2 where
      "enumerate_items 0 (pre @ item # post) = (fst (enumerate_items 0 pre), Some e2)" ..
    with dd have "generate_combined_json d =
          (fst (generate_combined_json (PDict [(PStr ''data'', PList pre)])), Some e2)"
      by (simp add: generate_combined_json_def)
    then show ?thesis ..
  qed
  show "build_validated_answers ques = Inr []"
    if "dict_lookup ques (PStr ''validatedAnswers'') = None"
    using that by (simp add: build_validated_answers_def)
qed

theorem question_needs_consensus_and_answers_witness:
  "build_question (PDict question_without_consensus) = Inl (KeyError (PStr ''consensus'')) \<and>
   build_question (PDict question_without_answers) = Inl (KeyError (PStr ''answers'')) \<and>
   (\<exists>e. generate_combined_json
           (PDict [(PStr ''data'', PList [sample_item, item_with_bad_question, sample_item])]) =
         ([(0, CombinedJsonExample (PStr ''A1'') (PStr ''story.'') (PStr ''train'')
                 [sample_question_record])], Some e)) \<and>
   build_validated_answers question_without_consensus = Inr []"
proof -
  have no: "dict_lookup question_without_consensus (PStr ''consensus'') = None \<or>
            dict_lookup question_without_consensus (PStr ''answers'') = None"
    by (simp add: question_without_consensus_def)
  have na: "dict_lookup question_without_answers (PStr ''consensus'') = None \<or>
            dict_lookup question_without_answers (PStr ''answers'') = None"
    by (simp add: question_without_answers_def)
  let ?d = "PDict [(PStr ''data'', PList [sample_item, item_with_bad_question, sample_item])]"
  note first = question_needs_consensus_and_answers [OF no,
      where item = item_with_bad_question
        and raw_questions = "PList [sample_question, PDict question_without_consensus]"
        and quess = "[sample_question, PDict question_without_consensus]"
        and d = ?d and pre = "[sample_item]" and post = "[sample_item]"]
  note second = question_needs_consensus_and_answers [OF na,
      where rc = "PDict [(PStr ''s'', PInt 5)]"
        and c = "[(PStr ''s'', PInt 5), (PStr ''e'', PInt 0),
                  (PStr ''badQuestion'', PBool False), (PStr ''noAnswer'', PBool False)]"]
  have a: "build_question (PDict question_without_consensus) = Inl (KeyError (PStr ''consensus''))"
    using first by (simp add: question_without_consensus_def)
  have b: "build_question (PDict question_without_answers) = Inl (KeyError (PStr ''answers''))"
    using second by (simp add: question_without_answers_def json_eval)
  have pre: "generate_combined_json (PDict [(PStr ''data'', PList [sample_item])]) =
     ([(0, CombinedJsonExample (PStr ''A1'') (PStr ''story.'') (PStr ''train'')
                 [sample_question_record])], None)"
    by (simp add: generate_combined_json_def build_item_def sample_item_def sample_question_builds)
  have "\<exists>e. generate_combined_json ?d =
      (fst (generate_combined_json (PDict [(PStr ''data'', PList [sample_item])])), Some e)"
    using first by (simp add: item_with_bad_question_def)
  then have c: "\<exists>e. generate_combined_json ?d =
         ([(0, CombinedJsonExample (PStr ''A1'') (PStr ''story.'') (PStr ''train'')
                 [sample_question_record])], Some e)"
    unfolding pre by simp
  have v: "build_validated_answers question_without_consensus = Inr []"
    using first by (simp add: question_without_consensus_def)
  from a b c v show ?thesis by (intro conjI)
qed

end
